theory Spec2Isabelle
  imports Complex_Main
begin

section \<open>JavaScript values as the modules read them\<close>

text \<open>
  The modules inspect objects that come out of the HTTP layer (\<open>response.data\<close> of the
  client, already parsed from JSON) with property reads, truthiness tests, \<open>typeof\<close>,
  \<open>===\<close> and \<open>||\<close>. A JavaScript string is a sequence of UTF-16 code units; ASCII
  literals of the source are written \<open>str ''...''\<close>.
\<close>

type_synonym jsstring = "nat list"

definition str :: "string \<Rightarrow> jsstring" where
  "str s = map of_char s"

datatype jsval =
    JUndefined
  | JNull
  | JBool bool
  | JNum real
  | JStr jsstring
  | JArr "jsval list"
  | JObj "(jsstring \<times> jsval) list"

datatype js_error = TypeError | ThrownError

text \<open>\<open>!v\<close> is \<open>\<not> truthy v\<close>.\<close>

fun truthy :: "jsval \<Rightarrow> bool" where
  "truthy JUndefined = False"
| "truthy JNull = False"
| "truthy (JBool b) = b"
| "truthy (JNum n) = (n \<noteq> 0)"
| "truthy (JStr s) = (s \<noteq> [])"
| "truthy (JArr xs) = True"
| "truthy (JObj fs) = True"

text \<open>\<open>typeof v === 'object'\<close>: true of \<open>null\<close>, arrays and objects.\<close>

fun typeof_object :: "jsval \<Rightarrow> bool" where
  "typeof_object JNull = True"
| "typeof_object (JArr xs) = True"
| "typeof_object (JObj fs) = True"
| "typeof_object v = False"

text \<open>
  \<open>v.k\<close> for the property names the modules read (\<open>success\<close>, \<open>data\<close>, \<open>message\<close>,
  \<open>code\<close>, \<open>requestId\<close>, \<open>ticket\<close>): reading a property of \<open>undefined\<close> or \<open>null\<close> throws
  a TypeError, an object yields the property or \<open>undefined\<close>, any other value has no such
  property.
\<close>

fun js_get :: "jsval \<Rightarrow> jsstring \<Rightarrow> js_error + jsval" where
  "js_get JUndefined k = Inl TypeError"
| "js_get JNull k = Inl TypeError"
| "js_get (JObj fs) k = Inr (case map_of fs k of None \<Rightarrow> JUndefined | Some v \<Rightarrow> v)"
| "js_get v k = Inr JUndefined"

text \<open>\<open>a || b\<close>.\<close>

definition js_or :: "jsval \<Rightarrow> jsval \<Rightarrow> jsval" where
  "js_or a b = (if truthy a then a else b)"

text \<open>\<open>String.prototype.includes\<close>: the pattern occurs at some position of the string.\<close>

primrec str_includes :: "jsstring \<Rightarrow> jsstring \<Rightarrow> bool" where
  "str_includes [] p = (p = [])"
| "str_includes (c # cs) p = (take (length p) (c # cs) = p \<or> str_includes cs p)"

text \<open>
  \<open>m.includes(p)\<close> for a string pattern \<open>p\<close>: a string searches for the substring, an
  array for an element equal to \<open>p\<close>; every other value parsed from JSON has no callable
  \<open>includes\<close>, so the call throws a TypeError.
\<close>

fun js_includes :: "jsval \<Rightarrow> jsstring \<Rightarrow> js_error + bool" where
  "js_includes (JStr s) p = Inr (str_includes s p)"
| "js_includes (JArr xs) p = Inr (JStr p \<in> set xs)"
| "js_includes v p = Inl TypeError"

section \<open>ApplicationSubmitter.parseSubmitResponse\<close>

text \<open>The marker of a repeated submission, code points U+91CD U+590D U+63D0 U+4EA4.\<close>

definition DUPLICATE_MARKER :: jsstring where
  "DUPLICATE_MARKER = [0x91CD, 0x590D, 0x63D0, 0x4EA4]"

text \<open>
  The fixed message texts of the source are Chinese literals; each is kept as an opaque
  ASCII tag here, since no caller reads them.
\<close>

definition MSG_API_FAILED :: jsval where "MSG_API_FAILED = JStr (str ''<API call failed>'')"
definition MSG_BAD_FORMAT :: jsval where "MSG_BAD_FORMAT = JStr (str ''<response format error>'')"
definition MSG_SUBMITTED :: jsval where "MSG_SUBMITTED = JStr (str ''<submitted>'')"
definition MSG_TICKET_EXPIRED :: jsval where "MSG_TICKET_EXPIRED = JStr (str ''<ticket expired>'')"
definition MSG_UNKNOWN :: jsval where "MSG_UNKNOWN = JStr (str ''<unknown response state>'')"

text \<open>The text the engine gives a TypeError; it is only copied into the result.\<close>

definition error_message :: "js_error \<Rightarrow> jsval" where
  "error_message e = JStr (str ''TypeError'')"

text \<open>
  The object literal each branch returns. A property the literal does not have reads
  as \<open>undefined\<close>; \<open>needNewTicket\<close> is present in the ticket branch only.
\<close>

record submit_result =
  success :: bool
  status :: string
  message :: jsval
  code :: jsval
  requestId :: jsval
  needRetry :: bool
  needNewTicket :: jsval

definition mk_result :: "bool \<Rightarrow> string \<Rightarrow> jsval \<Rightarrow> bool \<Rightarrow> submit_result" where
  "mk_result ok st msg retry =
     \<lparr>success = ok, status = st, message = msg, code = JUndefined,
      requestId = JUndefined, needRetry = retry, needNewTicket = JUndefined\<rparr>"

text \<open>The body of the \<open>try\<close> block; \<open>Inl\<close> is an exception thrown inside it.\<close>

definition parseSubmitResponse_body :: "jsval \<Rightarrow> js_error + submit_result" where
  "parseSubmitResponse_body apiResult =
     (case js_get apiResult (str ''success'') of
        Inl e \<Rightarrow> Inl e
      | Inr ok \<Rightarrow>
          if \<not> truthy ok then
            (case js_get apiResult (str ''message'') of
               Inl e \<Rightarrow> Inl e
             | Inr m \<Rightarrow> Inr (mk_result False ''api_error'' (js_or m MSG_API_FAILED) False))
          else
            (case js_get apiResult (str ''data'') of
               Inl e \<Rightarrow> Inl e
             | Inr responseData \<Rightarrow>
                 if \<not> truthy responseData \<or> \<not> typeof_object responseData then
                   Inr (mk_result False ''invalid_response'' MSG_BAD_FORMAT True)
                 else
                   (case (js_get responseData (str ''success''), js_get responseData (str ''code''),
                          js_get responseData (str ''message''), js_get responseData (str ''requestId'')) of
                      (Inr rsuccess, Inr rcode, Inr rmessage, Inr rid) \<Rightarrow>
                        if rsuccess = JBool True then
                          Inr ((mk_result True ''submitted'' (js_or rmessage MSG_SUBMITTED) False)
                                 \<lparr>code := rcode, requestId := rid\<rparr>)
                        else if rsuccess = JBool False then
                          (let msg = js_or rmessage (JStr []) in
                           if rcode = JStr (str ''TICKET_INVALID'') then
                             Inr ((mk_result False ''ticket_invalid'' MSG_TICKET_EXPIRED False)
                                    \<lparr>code := rcode, needNewTicket := JBool True\<rparr>)
                           else
                             (case js_includes msg DUPLICATE_MARKER of
                                Inl e \<Rightarrow> Inl e
                              | Inr dup \<Rightarrow>
                                  if dup then
                                    Inr ((mk_result True ''duplicate'' msg False)
                                           \<lparr>code := rcode, requestId := rid\<rparr>)
                                  else
                                    Inr ((mk_result False ''failed'' msg True) \<lparr>code := rcode\<rparr>)))
                        else Inr (mk_result False ''unknown'' MSG_UNKNOWN True)
                    | _ \<Rightarrow> Inl TypeError)))"

text \<open>The whole method: the \<open>catch\<close> block turns any exception into a \<open>parse_error\<close> result.\<close>

definition parseSubmitResponse :: "jsval \<Rightarrow> submit_result" where
  "parseSubmitResponse apiResult =
     (case parseSubmitResponse_body apiResult of
        Inl e \<Rightarrow> mk_result False ''parse_error'' (error_message e) True
      | Inr r \<Rightarrow> r)"

section \<open>ApplicationSubmitter: tasks and a single attempt\<close>

record account =
  accId :: jsval
  tourismSubsidyIds :: "(jsstring \<times> jsval) list option"
  foodSubsidyId :: jsval

record submit_task =
  task_type :: string
  quota :: "jsstring option"
  subsidyId :: jsval
  task_account :: account
  ticket :: jsstring

text \<open>
  One task per entry of \<open>account.tourismSubsidyIds || {}\<close> (\<open>None\<close> is the absent
  property), then the food task when \<open>account.foodSubsidyId\<close> is truthy. The field
  \<open>tourismSubsidyIds\<close> holds the entries as \<open>Object.entries\<close> yields them: keys that
  are array indices first, in ascending numeric order, then the other keys in the order
  they were added.
\<close>

definition generateSubmitTasks :: "account \<Rightarrow> jsstring \<Rightarrow> submit_task list" where
  "generateSubmitTasks acct tk =
     map (\<lambda>(q, sid). \<lparr>task_type = ''tourism'', quota = Some q, subsidyId = sid,
                        task_account = acct, ticket = tk\<rparr>)
         (case tourismSubsidyIds acct of None \<Rightarrow> [] | Some entries \<Rightarrow> entries)
     @ (if truthy (foodSubsidyId acct)
        then [\<lparr>task_type = ''food'', quota = None, subsidyId = foodSubsidyId acct,
               task_account = acct, ticket = tk\<rparr>]
        else [])"

text \<open>What \<open>executeSubmitTask\<close> returns: the parsed result spread, plus the task.\<close>

record task_result = submit_result +
  task :: submit_task

text \<open>
  \<open>executeSubmitTask\<close>, given how \<open>await this.apiClient.submitApplication(...)\<close>
  settled: \<open>Inr\<close> its value, \<open>Inl\<close> an exception, which the \<open>catch\<close> block turns into
  the \<open>error\<close> result.
\<close>

definition executeSubmitTask :: "submit_task \<Rightarrow> js_error + jsval \<Rightarrow> task_result" where
  "executeSubmitTask t api =
     (case api of
        Inr apiResult \<Rightarrow> submit_result.extend (parseSubmitResponse apiResult) (task_result.fields t)
      | Inl e \<Rightarrow>
          \<lparr>success = False, status = ''error'', message = JUndefined, code = JUndefined,
           requestId = JUndefined, needRetry = False, needNewTicket = JUndefined, task = t\<rparr>)"

section \<open>ApplicationSubmitter: the submitter and the high-concurrency race\<close>

record account_status =
  as_status :: string
  completedAt :: int

record submitter =
  accountStatuses :: "jsval \<rightharpoonup> account_status"
  isRunning :: bool
  successfulAccounts :: "jsval set"
  duplicateSubmissions :: "jsval set"

definition isAccountCompleted :: "submitter \<Rightarrow> jsval \<Rightarrow> bool" where
  "isAccountCompleted sub accountId = (accountId \<in> dom (accountStatuses sub))"

definition markAccountCompleted :: "submitter \<Rightarrow> jsval \<Rightarrow> string \<Rightarrow> int \<Rightarrow> submitter" where
  "markAccountCompleted sub accountId st now =
     sub\<lparr>accountStatuses := (accountStatuses sub)(accountId \<mapsto> \<lparr>as_status = st, completedAt = now\<rparr>)\<rparr>"

definition stop :: "submitter \<Rightarrow> submitter" where
  "stop sub = sub\<lparr>isRunning := False\<rparr>"

definition reset :: "submitter \<Rightarrow> submitter" where
  "reset sub = \<lparr>accountStatuses = Map.empty, isRunning = True,
                successfulAccounts = {}, duplicateSubmissions = {}\<rparr>"

text \<open>
  The object \<open>submitForAccount\<close> resolves to. Properties a literal leaves out are
  \<open>JUndefined\<close> (\<open>None\<close> for the nested result). The error texts are Chinese literals,
  kept as ASCII tags.
\<close>

record submission_result =
  sub_success :: bool
  sub_completed :: jsval
  sub_needNewTicket :: jsval
  sub_needRetry :: jsval
  sub_error :: jsval
  sub_account :: account
  sub_result :: "task_result option"

definition ERR_NO_QUOTA :: jsval where "ERR_NO_QUOTA = JStr (str ''<no quota to submit>'')"
definition ERR_SUBMIT_TIMEOUT :: jsval where "ERR_SUBMIT_TIMEOUT = JStr (str ''<submit timeout>'')"

text \<open>
  The locals of one \<open>executeHighConcurrencySubmission\<close> call, with what it has done so
  far: every argument \<open>resolve\<close> was called with (oldest first), every
  \<open>executeSubmitTask\<close> call made (each sends one \<open>submitApplication\<close> request), the
  attempts not yet settled, and the two timers.
\<close>

record race =
  completed :: bool
  roundCounter :: nat
  resolved :: "submission_result list"
  issued :: "submit_task list"
  pending :: nat
  roundTimer :: bool
  timeoutTimer :: bool
  this :: submitter

definition handleSuccess :: "account \<Rightarrow> task_result \<Rightarrow> race \<Rightarrow> race" where
  "handleSuccess acct res s =
     (if completed s then s
      else s\<lparr>completed := True,
             resolved := resolved s @
               [\<lparr>sub_success = True, sub_completed = JBool True, sub_needNewTicket = JUndefined,
                 sub_needRetry = JUndefined, sub_error = JUndefined, sub_account = acct,
                 sub_result = Some res\<rparr>]\<rparr>)"

definition handleTicketExpired :: "account \<Rightarrow> race \<Rightarrow> race" where
  "handleTicketExpired acct s =
     (if completed s then s
      else s\<lparr>completed := True,
             resolved := resolved s @
               [\<lparr>sub_success = False, sub_completed = JBool False, sub_needNewTicket = JBool True,
                 sub_needRetry = JUndefined, sub_error = JUndefined, sub_account = acct,
                 sub_result = None\<rparr>]\<rparr>)"

text \<open>The body of \<open>submitTasks.forEach\<close> for one task.\<close>

definition dispatch :: "submit_task \<Rightarrow> race \<Rightarrow> race" where
  "dispatch t s =
     (if completed s \<or> \<not> isRunning (this s) then s
      else s\<lparr>issued := issued s @ [t], pending := Suc (pending s)\<rparr>)"

definition startSubmissionRound :: "submit_task list \<Rightarrow> race \<Rightarrow> race" where
  "startSubmissionRound submitTasks s =
     (if completed s \<or> \<not> isRunning (this s) then s
      else
        (let s1 = fold dispatch submitTasks (s\<lparr>roundCounter := Suc (roundCounter s)\<rparr>)
         in if \<not> completed s1 \<and> isRunning (this s1) then s1\<lparr>roundTimer := True\<rparr> else s1))"

text \<open>The \<open>then\<close> callback of one attempt.\<close>

definition onTaskResult :: "account \<Rightarrow> task_result \<Rightarrow> race \<Rightarrow> race" where
  "onTaskResult acct res s =
     (if completed s then s
      else if success res \<and> (status res = ''submitted'' \<or> status res = ''duplicate'')
        then handleSuccess acct res s
      else if truthy (needNewTicket res) then handleTicketExpired acct s
      else s)"

text \<open>The callback of the \<open>submitTimeout\<close> timer.\<close>

definition onTimeout :: "account \<Rightarrow> race \<Rightarrow> race" where
  "onTimeout acct s =
     (if \<not> completed s
      then s\<lparr>completed := True,
             resolved := resolved s @
               [\<lparr>sub_success = False, sub_completed = JBool False, sub_needNewTicket = JUndefined,
                 sub_needRetry = JUndefined, sub_error = ERR_SUBMIT_TIMEOUT, sub_account = acct,
                 sub_result = None\<rparr>]\<rparr>
      else s)"

text \<open>
  What the event loop can run next while the promise is outstanding: the round timer
  fires, an outstanding attempt settles with a result, the timeout timer fires, or other
  code calls \<open>stop()\<close> or \<open>reset()\<close> on the submitter.
\<close>

datatype event =
    RoundTimer
  | Settled task_result
  | TimeoutTimer
  | Stop
  | Reset

fun step :: "account \<Rightarrow> submit_task list \<Rightarrow> event \<Rightarrow> race \<Rightarrow> race" where
  "step acct ts RoundTimer s =
     (if roundTimer s then startSubmissionRound ts (s\<lparr>roundTimer := False\<rparr>) else s)"
| "step acct ts (Settled res) s =
     (if 0 < pending s then onTaskResult acct res (s\<lparr>pending := pending s - 1\<rparr>) else s)"
| "step acct ts TimeoutTimer s =
     (if timeoutTimer s then onTimeout acct (s\<lparr>timeoutTimer := False\<rparr>) else s)"
| "step acct ts Stop s = s\<lparr>this := stop (this s)\<rparr>"
| "step acct ts Reset s = s\<lparr>this := reset (this s)\<rparr>"

text \<open>
  The promise executor: fresh locals, the first round at once, then the timeout timer;
  after it, the events in the order the event loop runs them.
\<close>

definition race_start :: "submitter \<Rightarrow> submit_task list \<Rightarrow> race" where
  "race_start sub submitTasks =
     (startSubmissionRound submitTasks
        \<lparr>completed = False, roundCounter = 0, resolved = [], issued = [], pending = 0,
         roundTimer = False, timeoutTimer = False, this = sub\<rparr>) \<lparr>timeoutTimer := True\<rparr>"

definition executeHighConcurrencySubmission ::
    "submitter \<Rightarrow> account \<Rightarrow> submit_task list \<Rightarrow> event list \<Rightarrow> race" where
  "executeHighConcurrencySubmission sub acct submitTasks events =
     fold (step acct submitTasks) events (race_start sub submitTasks)"

text \<open>A promise keeps the value of the first \<open>resolve\<close> call; \<open>None\<close> is still pending.\<close>

definition settled_value :: "race \<Rightarrow> submission_result option" where
  "settled_value s = (case resolved s of [] \<Rightarrow> None | v # vs \<Rightarrow> Some v)"

text \<open>
  \<open>submitForAccount\<close> with what it did: the value it resolved to, the submitter
  afterwards, the tasks it generated (\<open>None\<close>: \<open>generateSubmitTasks\<close> was not called),
  the requests it sent and the rounds it started.
\<close>

record submit_run =
  returned :: "submission_result option"
  submitter_after :: submitter
  generated :: "submit_task list option"
  requests :: "submit_task list"
  rounds :: nat

definition submitForAccount ::
    "submitter \<Rightarrow> account \<Rightarrow> jsstring \<Rightarrow> event list \<Rightarrow> submit_run" where
  "submitForAccount sub acct tk events =
     (if isAccountCompleted sub (accId acct) then
        \<lparr>returned = Some \<lparr>sub_success = True, sub_completed = JBool True,
                          sub_needNewTicket = JUndefined, sub_needRetry = JUndefined,
                          sub_error = JUndefined, sub_account = acct, sub_result = None\<rparr>,
         submitter_after = sub, generated = None, requests = [], rounds = 0\<rparr>
      else
        (let submitTasks = generateSubmitTasks acct tk in
         if length submitTasks = 0 then
           \<lparr>returned = Some \<lparr>sub_success = False, sub_completed = JUndefined,
                             sub_needNewTicket = JUndefined, sub_needRetry = JBool False,
                             sub_error = ERR_NO_QUOTA, sub_account = acct, sub_result = None\<rparr>,
            submitter_after = sub, generated = Some submitTasks, requests = [], rounds = 0\<rparr>
         else
           (let r = executeHighConcurrencySubmission sub acct submitTasks events in
            \<lparr>returned = settled_value r, submitter_after = this r,
             generated = Some submitTasks, requests = issued r, rounds = roundCounter r\<rparr>)))"

section \<open>TicketValidator\<close>

text \<open>
  The repository holds two copies of the class, which differ in
  \<open>parseValidationResponse\<close> only. The first copy accepts every object body whose
  \<open>success\<close> is not the boolean \<open>false\<close>.
\<close>

definition parseValidationResponse_first :: "jsval \<Rightarrow> bool" where
  "parseValidationResponse_first responseData =
     (if \<not> truthy responseData \<or> \<not> typeof_object responseData then False
      else (case js_get responseData (str ''success'') of
              Inl e \<Rightarrow> False
            | Inr s \<Rightarrow> if s \<noteq> JBool False then True else False))"

text \<open>The second copy accepts the boolean \<open>true\<close> only.\<close>

definition parseValidationResponse_second :: "jsval \<Rightarrow> bool" where
  "parseValidationResponse_second responseData =
     (if \<not> truthy responseData \<or> \<not> typeof_object responseData then False
      else (case js_get responseData (str ''success'') of
              Inl e \<Rightarrow> False
            | Inr s \<Rightarrow> if s = JBool True then True
                       else if s = JBool False then False
                       else False))"

record validation_result =
  v_success :: bool
  valid :: bool
  v_account :: account
  v_ticket :: jsstring
  v_error :: "js_error option"
  v_needRetry :: jsval

text \<open>
  \<open>validateTicketForAccount\<close>, the same text in both copies, over the copy's parser and
  how \<open>await this.apiClient.validateTicket(account, ticket)\<close> settled. A result whose
  \<open>success\<close> is falsy makes the method throw an \<open>Error\<close> (\<open>ThrownError\<close>); the
  \<open>catch\<close> block answers every exception alike.
\<close>

definition validateTicketForAccount ::
    "(jsval \<Rightarrow> bool) \<Rightarrow> account \<Rightarrow> jsstring \<Rightarrow> js_error + jsval \<Rightarrow> validation_result" where
  "validateTicketForAccount parseValidationResponse acct tk api =
     (let caught = (\<lambda>e. \<lparr>v_success = False, valid = False, v_account = acct, v_ticket = tk,
                          v_error = Some e, v_needRetry = JBool True\<rparr>)
      in case api of
           Inl e \<Rightarrow> caught e
         | Inr result \<Rightarrow>
             (case (js_get result (str ''success''), js_get result (str ''data'')) of
                (Inr ok, Inr d) \<Rightarrow>
                  if \<not> truthy ok then caught ThrownError
                  else if parseValidationResponse d then
                    \<lparr>v_success = True, valid = True, v_account = acct, v_ticket = tk,
                     v_error = None, v_needRetry = JUndefined\<rparr>
                  else
                    \<lparr>v_success = True, valid = False, v_account = acct, v_ticket = tk,
                     v_error = None, v_needRetry = JBool True\<rparr>
              | _ \<Rightarrow> caught TypeError))"

section \<open>PurchaseFlow: one account's flow and the statistics\<close>

record ticket_result =
  tr_success :: bool
  tr_ticket :: jsstring
  tr_attempts :: nat
  tr_duration :: int

record flow_result =
  fr_success :: bool
  fr_account :: account
  fr_type :: string
  fr_result :: "submission_result option"

text \<open>The calls one pass of the \<open>while (this.isRunning)\<close> loop makes, in order.\<close>

datatype flow_action =
    GetTicket
  | ValidateTicket jsstring
  | SubmitApplication jsstring
  | LogSuccessfulSubmission
  | Sleep nat

datatype flow_next = Return flow_result | Continue

text \<open>
  What the three awaited calls of one pass answer: \<open>getTicketForAccount\<close> (\<open>Inl\<close>: it
  threw), \<open>validateTicketForAccount\<close> and \<open>submitForAccount\<close>; the last two catch
  their own exceptions. A later answer is read only when the pass gets that far.
\<close>

record flow_pass =
  ticketResult :: "js_error + ticket_result"
  validationResult :: validation_result
  submissionResult :: submission_result

definition flow_type :: "submission_result \<Rightarrow> string" where
  "flow_type sr =
     (case sub_result sr of
        None \<Rightarrow> ''submitted''
      | Some res \<Rightarrow> if status res = ''duplicate'' then ''duplicate'' else ''submitted'')"

definition flowPass :: "account \<Rightarrow> flow_pass \<Rightarrow> flow_action list \<times> flow_next" where
  "flowPass acct env =
     (case ticketResult env of
        Inl stepError \<Rightarrow> ([GetTicket, Sleep 2000], Continue)
      | Inr tr \<Rightarrow>
          if \<not> tr_success tr then ([GetTicket, Sleep 1000], Continue)
          else
            (let v = validationResult env in
             if \<not> valid v then ([GetTicket, ValidateTicket (tr_ticket tr)], Continue)
             else
               (let sr = submissionResult env;
                    calls = [GetTicket, ValidateTicket (tr_ticket tr), SubmitApplication (tr_ticket tr)]
                in if sub_success sr \<and> truthy (sub_completed sr) then
                     (calls @ [LogSuccessfulSubmission],
                      Return \<lparr>fr_success = True, fr_account = acct, fr_type = flow_type sr,
                              fr_result = Some sr\<rparr>)
                   else if truthy (sub_needNewTicket sr) then (calls, Continue)
                   else (calls, Continue))))"

text \<open>
  \<open>executeIndependentAccountFlow\<close> over the passes the environment offers, each with
  the value of \<open>this.isRunning\<close> at the loop test. \<open>None\<close>: the loop is still running
  when the offered passes end.
\<close>

fun executeIndependentAccountFlow ::
    "account \<Rightarrow> (bool \<times> flow_pass) list \<Rightarrow> flow_action list \<times> flow_result option" where
  "executeIndependentAccountFlow acct [] = ([], None)"
| "executeIndependentAccountFlow acct ((running, env) # rest) =
     (if \<not> running then
        ([], Some \<lparr>fr_success = False, fr_account = acct, fr_type = ''interrupted'', fr_result = None\<rparr>)
      else
        (case flowPass acct env of
           (acts, Return r) \<Rightarrow> (acts, Some r)
         | (acts, Continue) \<Rightarrow>
             (case executeIndependentAccountFlow acct rest of
                (acts', r) \<Rightarrow> (acts @ acts', r))))"

text \<open>An entry of \<open>Promise.allSettled\<close>.\<close>

datatype 'a settled = Fulfilled 'a | Rejected js_error

record result_stats =
  n_success :: nat
  n_duplicate :: nat
  n_fail :: nat
  n_total :: nat

definition count_result :: "flow_result settled \<Rightarrow> result_stats \<Rightarrow> result_stats" where
  "count_result r st =
     (case r of
        Fulfilled v \<Rightarrow>
          if fr_success v then
            (if fr_type v = ''duplicate'' then st\<lparr>n_duplicate := n_duplicate st + 1\<rparr>
             else st\<lparr>n_success := n_success st + 1\<rparr>)
          else st\<lparr>n_fail := n_fail st + 1\<rparr>
      | Rejected e \<Rightarrow> st\<lparr>n_fail := n_fail st + 1\<rparr>)"

definition calculateResultStats :: "flow_result settled list \<Rightarrow> result_stats" where
  "calculateResultStats results =
     fold count_result results
       \<lparr>n_success = 0, n_duplicate = 0, n_fail = 0, n_total = length results\<rparr>"

section \<open>TicketManager: the rate limiter\<close>

text \<open>
  Times are \<open>Date.now()\<close> readings in milliseconds. \<open>maxRequestsPerSecond\<close> is
  \<open>config.ticket?.maxRequestsPerSecond || 2\<close>: an absent or zero setting gives 2.
\<close>

definition maxRequestsPerSecond :: "nat option \<Rightarrow> nat" where
  "maxRequestsPerSecond cfg = (case cfg of None \<Rightarrow> 2 | Some n \<Rightarrow> if n = 0 then 2 else n)"

text \<open>\<open>Math.min(...xs)\<close> of a non-empty list.\<close>

fun math_min :: "int \<Rightarrow> int list \<Rightarrow> int" where
  "math_min x [] = x"
| "math_min x (y # ys) = math_min (min x y) ys"

text \<open>
  \<open>enforceRateLimit\<close> for one account: from the limit, the account's recorded request
  times and the reading \<open>now\<close>, the time it sleeps before returning (0: it does not
  sleep) and the times it records. With no recent request there is no oldest one; the
  limit is at least 1, so the test before it fails then.
\<close>

definition enforceRateLimit :: "nat \<Rightarrow> int list \<Rightarrow> int \<Rightarrow> int \<times> int list" where
  "enforceRateLimit maxPerSecond requestTimes now =
     (let oneSecondAgo = now - 1000;
          recentRequests = filter (\<lambda>time. time > oneSecondAgo) requestTimes;
          slept =
            (if length recentRequests \<ge> maxPerSecond then
               (case recentRequests of
                  [] \<Rightarrow> 0
                | t # ts \<Rightarrow>
                    (let oldestRequest = math_min t ts;
                         waitTime = 1000 - (now - oldestRequest)
                     in if waitTime > 0 then waitTime else 0))
             else 0);
          pushed = requestTimes @ [now]
      in (slept, drop (length pushed - maxPerSecond) pushed))"

text \<open>
  The times at which successive \<open>enforceRateLimit\<close> calls of one account return, when
  the calls are entered at the given readings and every sleep lasts exactly as long as
  asked.
\<close>

fun return_times :: "nat \<Rightarrow> int list \<Rightarrow> int list \<Rightarrow> int list" where
  "return_times maxPerSecond requestTimes [] = []"
| "return_times maxPerSecond requestTimes (now # later) =
     (case enforceRateLimit maxPerSecond requestTimes now of
        (slept, requestTimes') \<Rightarrow> (now + slept) # return_times maxPerSecond requestTimes' later)"

section \<open>TicketManager: acquiring a ticket\<close>

text \<open>
  What \<open>ApiClient.makeRequest\<close> resolves to: \<open>{success: true, data}\<close> or
  \<open>{success: false, message}\<close> with the last error's text.
\<close>

datatype api_result = ApiOk jsval | ApiFail jsstring

text \<open>White space that \<open>String.prototype.trim\<close> removes.\<close>

definition js_whitespace :: "nat \<Rightarrow> bool" where
  "js_whitespace c =
     (c \<in> {0x9, 0xA, 0xB, 0xC, 0xD, 0x20, 0xA0, 0x1680, 0x2028, 0x2029, 0x202F, 0x205F,
            0x3000, 0xFEFF} \<or> (0x2000 \<le> c \<and> c \<le> 0x200A))"

definition validateTicketResponse :: "jsval \<Rightarrow> jsstring option" where
  "validateTicketResponse responseData =
     (if \<not> truthy responseData \<or> \<not> typeof_object responseData then None
      else
        (case (js_get responseData (str ''success''), js_get responseData (str ''code''),
               js_get responseData (str ''data'')) of
           (Inr ok, Inr c, Inr d) \<Rightarrow>
             if \<not> truthy ok \<or> c \<noteq> JStr (str ''0'') then None
             else if \<not> truthy d then None
             else
               (case js_get d (str ''ticket'') of
                  Inr (JStr tk) \<Rightarrow> if list_all js_whitespace tk then None else Some tk
                | _ \<Rightarrow> None)
         | _ \<Rightarrow> None))"

text \<open>
  The error of the timeout branch is \<open>new Error(...)\<close> with the configured timeout in
  its text and nothing else; the attempt count and the duration go to the log entry.
\<close>

datatype ticket_error = TicketTimeout int

datatype ticket_outcome = Returned ticket_result | Thrown ticket_error | StillLooping

text \<open>
  What one pass of the \<open>while (true)\<close> loop meets: the clock at the timeout test, the
  clock inside \<open>enforceRateLimit\<close>, how \<open>await this.apiClient.getTicket(account)\<close>
  settled, and the clock where the duration is computed for the log entry or the result.
\<close>

record ticket_pass =
  clock_test :: int
  clock_limit :: int
  api :: api_result
  clock_end :: int

record ticket_run =
  outcome :: ticket_outcome
  attempts :: nat
  getTicket_calls :: nat
  timeout_log :: "(nat \<times> int) option"
  sleeps :: "int list"
  requestTimes_after :: "int list"

text \<open>
  The \<open>catch\<close> block's pause: doubled when the error text contains \<open>429\<close>. The
  error is \<open>new Error(result.message || ...)\<close>, and the fallback text has no \<open>429\<close>
  in it.
\<close>

definition retry_pause :: "int \<Rightarrow> jsstring \<Rightarrow> int" where
  "retry_pause retryInterval errorMessage =
     (if str_includes errorMessage (str ''429'') then retryInterval * 2 else retryInterval)"

fun ticket_loop ::
    "nat \<Rightarrow> int \<Rightarrow> int \<Rightarrow> int \<Rightarrow> nat \<Rightarrow> nat \<Rightarrow> int list \<Rightarrow> int list \<Rightarrow> ticket_pass list
       \<Rightarrow> ticket_run" where
  "ticket_loop maxPerSecond retryInterval timeout startTime n calls slept recorded [] =
     \<lparr>outcome = StillLooping, attempts = n, getTicket_calls = calls, timeout_log = None,
      sleeps = slept, requestTimes_after = recorded\<rparr>"
| "ticket_loop maxPerSecond retryInterval timeout startTime n calls slept recorded (p # ps) =
     (let n = n + 1 in
      if clock_test p - startTime > timeout then
        \<lparr>outcome = Thrown (TicketTimeout timeout), attempts = n, getTicket_calls = calls,
         timeout_log = Some (n, clock_end p - startTime), sleeps = slept,
         requestTimes_after = recorded\<rparr>
      else
        (case enforceRateLimit maxPerSecond recorded (clock_limit p) of
           (w, recorded') \<Rightarrow>
             (let slept = (if w > 0 then slept @ [w] else slept); calls = calls + 1 in
              case api p of
                ApiFail msg \<Rightarrow>
                  ticket_loop maxPerSecond retryInterval timeout startTime n calls
                    (slept @ [retry_pause retryInterval msg]) recorded' ps
              | ApiOk d \<Rightarrow>
                  (case validateTicketResponse d of
                     Some tk \<Rightarrow>
                       \<lparr>outcome = Returned \<lparr>tr_success = True, tr_ticket = tk, tr_attempts = n,
                                            tr_duration = clock_end p - startTime\<rparr>,
                        attempts = n, getTicket_calls = calls, timeout_log = None,
                        sleeps = slept, requestTimes_after = recorded'\<rparr>
                   | None \<Rightarrow>
                       ticket_loop maxPerSecond retryInterval timeout startTime n calls slept
                         recorded' ps))))"

text \<open>
  \<open>getTicketForAccount\<close>: \<open>attempts = 0\<close>, \<open>startTime = Date.now()\<close>, then the loop.
  Storing the ticket in \<open>accountTickets\<close> is left out.
\<close>

definition getTicketForAccount ::
    "nat \<Rightarrow> int \<Rightarrow> int \<Rightarrow> int list \<Rightarrow> int \<Rightarrow> ticket_pass list \<Rightarrow> ticket_run" where
  "getTicketForAccount maxPerSecond retryInterval timeout requestTimes startTime passes =
     ticket_loop maxPerSecond retryInterval timeout startTime 0 0 [] requestTimes passes"

section \<open>ProxyPool: choosing a route\<close>

record proxy =
  host :: jsstring
  port :: nat
  protocol :: jsstring
  auth :: jsval
  enabled :: bool
  failCount :: nat
  lastUsed :: "int option"
  maxFails :: nat

record route =
  r_host :: jsstring
  r_port :: nat
  r_protocol :: jsstring
  r_auth :: jsval

record pool =
  proxies :: "proxy list"
  currentIndex :: nat
  expireTime :: "int option"
  isRefreshing :: bool

datatype pool_error = PoolEmpty | PoolTypeError

definition route_of :: "proxy \<Rightarrow> route" where
  "route_of p = \<lparr>r_host = host p, r_port = port p, r_protocol = protocol p, r_auth = auth p\<rparr>"

definition usable :: "proxy \<Rightarrow> bool" where
  "usable p = (enabled p \<and> failCount p < maxFails p)"

definition resetFailCounts :: "pool \<Rightarrow> pool" where
  "resetFailCounts pl = pl\<lparr>proxies := map (\<lambda>p. p\<lparr>failCount := 0, enabled := True\<rparr>) (proxies pl)\<rparr>"

text \<open>
  \<open>refreshProxies()\<close> up to its first \<open>await\<close>, which is all that runs before
  \<open>getNextProxy\<close> goes on: it raises \<open>isRefreshing\<close> unless a refresh is under way.
  The list of proxies is replaced only when the request has been answered.
\<close>

definition refreshProxies_begin :: "pool \<Rightarrow> pool" where
  "refreshProxies_begin pl = (if isRefreshing pl then pl else pl\<lparr>isRefreshing := True\<rparr>)"

text \<open>
  The \<open>while (attempts < this.proxies.length)\<close> loop, with the number of passes left.
  Reading past the end of the array gives \<open>undefined\<close>, whose \<open>enabled\<close> cannot be read.
\<close>

fun scan :: "nat \<Rightarrow> int \<Rightarrow> pool \<Rightarrow> pool_error + (route option \<times> pool)" where
  "scan 0 now pl = Inr (None, pl)"
| "scan (Suc k) now pl =
     (let i = currentIndex pl;
          pl' = pl\<lparr>currentIndex := (currentIndex pl + 1) mod length (proxies pl)\<rparr>
      in if i < length (proxies pl) then
           (let p = proxies pl ! i in
            if enabled p \<and> failCount p < maxFails p then
              Inr (Some (route_of p), pl'\<lparr>proxies := (proxies pl)[i := p\<lparr>lastUsed := Some now\<rparr>]\<rparr>)
            else scan k now pl')
         else Inl PoolTypeError)"

definition getNextProxy :: "pool \<Rightarrow> int \<Rightarrow> pool_error + (route \<times> pool)" where
  "getNextProxy pl now =
     (if length (proxies pl) = 0 then Inl PoolEmpty
      else
        (let pl1 = (case expireTime pl of
                      Some e \<Rightarrow> if now > e then refreshProxies_begin pl else pl
                    | None \<Rightarrow> pl)
         in case scan (length (proxies pl1)) now pl1 of
              Inl err \<Rightarrow> Inl err
            | Inr (Some r, pl2) \<Rightarrow> Inr (r, pl2)
            | Inr (None, pl2) \<Rightarrow>
                (let pl3 = resetFailCounts pl2 in Inr (route_of (proxies pl3 ! 0), pl3))))"

text \<open>
  \<open>getRandomProxy\<close>. \<open>Math.floor(Math.random() * n)\<close> is some index below \<open>n\<close>;
  \<open>rnd mod n\<close> ranges over exactly these. The method calls itself after a reset, and
  nothing bounds that when no proxy can become usable, so \<open>None\<close> stands for a call
  that does not return.
\<close>

partial_function (option) getRandomProxy ::
    "pool \<Rightarrow> int \<Rightarrow> nat \<Rightarrow> (pool_error + (route \<times> pool)) option" where
  "getRandomProxy pl now rnd =
     (if length (proxies pl) = 0 then Some (Inl PoolEmpty)
      else
        (let available = filter (\<lambda>i. usable (proxies pl ! i)) [0 ..< length (proxies pl)]
         in if length available = 0 then getRandomProxy (resetFailCounts pl) now rnd
            else
              (let i = available ! (rnd mod length available);
                   p = proxies pl ! i
               in Some (Inr (route_of p,
                             pl\<lparr>proxies := (proxies pl)[i := p\<lparr>lastUsed := Some now\<rparr>]\<rparr>)))))"

section \<open>Sample inputs\<close>

definition acct0 :: account where
  "acct0 = \<lparr>accId = JStr (str ''A1''),
             tourismSubsidyIds = Some [(str ''500'', JStr (str ''t500'')),
                                       (str ''1000'', JStr (str ''t1000''))],
             foodSubsidyId = JUndefined\<rparr>"

definition sub0 :: submitter where
  "sub0 = \<lparr>accountStatuses = Map.empty, isRunning = True, successfulAccounts = {},
            duplicateSubmissions = {}\<rparr>"

definition task0 :: submit_task where
  "task0 = \<lparr>task_type = ''tourism'', quota = Some (str ''500''), subsidyId = JStr (str ''t500''),
             task_account = acct0, ticket = str ''tk''\<rparr>"

definition task1 :: submit_task where
  "task1 = \<lparr>task_type = ''tourism'', quota = Some (str ''1000''), subsidyId = JStr (str ''t1000''),
             task_account = acct0, ticket = str ''tk''\<rparr>"

text \<open>An answered request whose body is \<open>d\<close>.\<close>

definition answered :: "jsval \<Rightarrow> jsval" where
  "answered d = JObj [(str ''success'', JBool True), (str ''data'', d)]"

definition body_submitted :: jsval where
  "body_submitted = JObj [(str ''success'', JBool True), (str ''code'', JStr (str ''0''))]"

definition body_duplicate :: jsval where
  "body_duplicate = JObj [(str ''success'', JBool False), (str ''code'', JStr (str ''E1'')),
                          (str ''message'', JStr DUPLICATE_MARKER)]"

definition body_ticket_invalid :: jsval where
  "body_ticket_invalid = JObj [(str ''success'', JBool False),
                               (str ''code'', JStr (str ''TICKET_INVALID''))]"

text \<open>
  What holds of the race's locals at every moment: \<open>resolve\<close> has been called once when
  \<open>completed\<close> is set and not at all before, when the timeout timer is still to fire.
\<close>

definition race_inv :: "race \<Rightarrow> bool" where
  "race_inv s \<longleftrightarrow> (if completed s then length (resolved s) = 1 else resolved s = [] \<and> timeoutTimer s)"

definition ticket0 :: ticket_result where
  "ticket0 = \<lparr>tr_success = True, tr_ticket = str ''tk'', tr_attempts = 1, tr_duration = 40\<rparr>"

definition valid0 :: validation_result where
  "valid0 = \<lparr>v_success = True, valid = True, v_account = acct0, v_ticket = str ''tk'',
              v_error = None, v_needRetry = JUndefined\<rparr>"

definition invalid0 :: validation_result where
  "invalid0 = \<lparr>v_success = True, valid = False, v_account = acct0, v_ticket = str ''tk'',
                v_error = None, v_needRetry = JBool True\<rparr>"

definition needs_ticket0 :: submission_result where
  "needs_ticket0 = \<lparr>sub_success = False, sub_completed = JBool False,
                     sub_needNewTicket = JBool True, sub_needRetry = JUndefined,
                     sub_error = JUndefined, sub_account = acct0, sub_result = None\<rparr>"

text \<open>A pass of the ticket loop that ends in a retry: the request failed, or its answer held no usable ticket.\<close>

definition fails :: "ticket_pass \<Rightarrow> bool" where
  "fails p = (case api p of ApiFail msg \<Rightarrow> True | ApiOk d \<Rightarrow> validateTicketResponse d = None)"

definition body_ticket :: jsval where
  "body_ticket = JObj [(str ''success'', JBool True), (str ''code'', JStr (str ''0'')),
                       (str ''data'', JObj [(str ''ticket'', JStr (str ''T-1''))])]"

text \<open>The pool as \<open>getNextProxy\<close> has it after its expiry test.\<close>

definition after_check :: "pool \<Rightarrow> int \<Rightarrow> pool" where
  "after_check pl now = (case expireTime pl of
                      Some e \<Rightarrow> if now > e then refreshProxies_begin pl else pl
                    | None \<Rightarrow> pl)"

definition proxy0 :: proxy where
  "proxy0 = \<lparr>host = str ''10.0.0.1'', port = 8080, protocol = str ''http'', auth = JUndefined,
              enabled = True, failCount = 0, lastUsed = None, maxFails = 3\<rparr>"

definition pool0 :: pool where
  "pool0 = \<lparr>proxies = [proxy0], currentIndex = 0, expireTime = Some 1000, isRefreshing = False\<rparr>"

section \<open>Facts used to run the sample inputs\<close>

lemmas eval_defs = acct0_def sub0_def task0_def task1_def answered_def body_submitted_def
  body_duplicate_def str_def DUPLICATE_MARKER_def
  parseSubmitResponse_def parseSubmitResponse_body_def mk_result_def js_or_def
  executeSubmitTask_def submit_result.extend_def task_result.fields_def
  executeHighConcurrencySubmission_def race_start_def startSubmissionRound_def dispatch_def
  onTaskResult_def handleSuccess_def handleTicketExpired_def onTimeout_def stop_def reset_def Let_def

section \<open>The result of parsing a submit response\<close>

lemma body_cases:
  "parseSubmitResponse_body r = Inr x \<Longrightarrow>
     status x \<in> {''api_error'', ''invalid_response'', ''submitted'', ''ticket_invalid'',
                 ''duplicate'', ''failed'', ''unknown''}
   \<and> (success x \<longleftrightarrow> status x \<in> {''submitted'', ''duplicate''})
   \<and> (needNewTicket x = JBool True \<longleftrightarrow> status x = ''ticket_invalid'')
   \<and> (truthy (needNewTicket x) \<longleftrightarrow> status x = ''ticket_invalid'')"
  unfolding parseSubmitResponse_body_def mk_result_def
  by (auto split: sum.splits if_splits prod.splits simp: Let_def)

text \<open>
  Claim C10. \<open>parseSubmitResponse\<close> answers every API result with a result object: an
  exception inside its \<open>try\<close> block becomes the \<open>parse_error\<close> result. The status is one
  of the eight listed, \<open>success\<close> is true exactly for \<open>submitted\<close> and \<open>duplicate\<close>, and
  \<open>needNewTicket\<close> is \<open>true\<close> exactly for \<open>ticket_invalid\<close>.
\<close>

theorem parseSubmitResponse_canonical:
  "status (parseSubmitResponse r) \<in>
      {''api_error'', ''invalid_response'', ''submitted'', ''ticket_invalid'',
       ''duplicate'', ''failed'', ''unknown'', ''parse_error''}
   \<and> (success (parseSubmitResponse r) \<longleftrightarrow>
        status (parseSubmitResponse r) \<in> {''submitted'', ''duplicate''})
   \<and> (needNewTicket (parseSubmitResponse r) = JBool True \<longleftrightarrow>
        status (parseSubmitResponse r) = ''ticket_invalid'')"
proof (cases "parseSubmitResponse_body r")
  case (Inl e)
  then show ?thesis by (simp add: parseSubmitResponse_def mk_result_def)
next
  case (Inr x)
  from body_cases[OF Inr] show ?thesis using Inr by (auto simp: parseSubmitResponse_def)
qed

section \<open>The race resolves once\<close>

lemma step_completed:
  "completed s \<Longrightarrow> completed (step a ts e s) \<and> resolved (step a ts e s) = resolved s
     \<and> roundCounter (step a ts e s) = roundCounter s \<and> issued (step a ts e s) = issued s"
  by (cases e) (simp_all add: startSubmissionRound_def onTaskResult_def onTimeout_def)

lemma run_completed:
  "completed s \<Longrightarrow> completed (fold (step a ts) es s) \<and> resolved (fold (step a ts) es s) = resolved s
     \<and> roundCounter (fold (step a ts) es s) = roundCounter s \<and> issued (fold (step a ts) es s) = issued s"
proof (induction es arbitrary: s)
  case Nil then show ?case by simp
next
  case (Cons e es)
  from step_completed[OF Cons.prems, of a ts e] Cons.IH[of "step a ts e s"]
  show ?case by simp
qed
lemma fold_dispatch_keeps:
  "completed (fold dispatch ts s) = completed s \<and> resolved (fold dispatch ts s) = resolved s
   \<and> timeoutTimer (fold dispatch ts s) = timeoutTimer s \<and> this (fold dispatch ts s) = this s
   \<and> roundCounter (fold dispatch ts s) = roundCounter s"
  by (induction ts arbitrary: s) (simp_all add: dispatch_def)

lemma startSubmissionRound_keeps:
  "completed (startSubmissionRound ts s) = completed s \<and> resolved (startSubmissionRound ts s) = resolved s
   \<and> timeoutTimer (startSubmissionRound ts s) = timeoutTimer s \<and> this (startSubmissionRound ts s) = this s"
  by (simp add: startSubmissionRound_def Let_def fold_dispatch_keeps)

lemma step_inv: "race_inv s \<Longrightarrow> race_inv (step a ts e s)"
  by (cases e) (auto simp: race_inv_def startSubmissionRound_keeps onTaskResult_def onTimeout_def
       handleSuccess_def handleTicketExpired_def split: if_splits)

lemma run_inv: "race_inv s \<Longrightarrow> race_inv (fold (step a ts) es s)"
  by (induction es arbitrary: s) (simp_all add: step_inv)

lemma start_inv: "race_inv (race_start sub ts)"
  by (simp add: race_start_def race_inv_def startSubmissionRound_keeps)

lemma timeout_completes: "race_inv s \<Longrightarrow> completed (step a ts TimeoutTimer s)"
  by (auto simp: race_inv_def onTimeout_def split: if_splits)

lemma run_timeout:
  "race_inv s \<Longrightarrow> TimeoutTimer \<in> set es \<Longrightarrow> completed (fold (step a ts) es s)"
proof (induction es arbitrary: s)
  case Nil then show ?case by simp
next
  case (Cons e es)
  show ?case
  proof (cases "e = TimeoutTimer")
    case True
    with timeout_completes[OF Cons.prems(1), of a ts] run_completed[of "step a ts e s" a ts es]
    show ?thesis by simp
  next
    case False
    with Cons.prems have "TimeoutTimer \<in> set es" by simp
    from Cons.IH[OF step_inv[OF Cons.prems(1)] this] show ?thesis by simp
  qed
qed

lemma run_append:
  "executeHighConcurrencySubmission sub a ts (es @ es') =
     fold (step a ts) es' (executeHighConcurrencySubmission sub a ts es)"
  by (simp add: executeHighConcurrencySubmission_def)

lemma race_open:
  "\<not> completed (executeHighConcurrencySubmission sub a ts es) \<Longrightarrow>
   resolved (executeHighConcurrencySubmission sub a ts es) = []
   \<and> timeoutTimer (executeHighConcurrencySubmission sub a ts es)"
  using run_inv[OF start_inv, of a ts es sub]
  by (simp add: executeHighConcurrencySubmission_def race_inv_def split: if_splits)

lemma finalized_stays:
  "completed s \<Longrightarrow> resolved s = [v] \<Longrightarrow> resolved (fold (step a ts) es s) = [v]"
  using run_completed[of s a ts es] by simp

lemma settle_success:
  assumes "\<not> completed s" "resolved s = []" "0 < pending s"
    and "success res" "status res = ''submitted'' \<or> status res = ''duplicate''"
  shows "completed (step a ts (Settled res) s)"
    and "resolved (step a ts (Settled res) s) =
           [\<lparr>sub_success = True, sub_completed = JBool True, sub_needNewTicket = JUndefined,
             sub_needRetry = JUndefined, sub_error = JUndefined, sub_account = a,
             sub_result = Some res\<rparr>]"
  using assms by (auto simp: onTaskResult_def handleSuccess_def)

lemma settle_ticket_expired:
  assumes "\<not> completed s" "resolved s = []" "0 < pending s"
    and "\<not> (success res \<and> (status res = ''submitted'' \<or> status res = ''duplicate''))"
    and "truthy (needNewTicket res)"
  shows "completed (step a ts (Settled res) s)"
    and "resolved (step a ts (Settled res) s) =
           [\<lparr>sub_success = False, sub_completed = JBool False, sub_needNewTicket = JBool True,
             sub_needRetry = JUndefined, sub_error = JUndefined, sub_account = a,
             sub_result = None\<rparr>]"
  using assms by (auto simp: onTaskResult_def handleTicketExpired_def)

lemma timer_timeout:
  assumes "\<not> completed s" "resolved s = []" "timeoutTimer s"
  shows "completed (step a ts TimeoutTimer s)"
    and "resolved (step a ts TimeoutTimer s) =
           [\<lparr>sub_success = False, sub_completed = JBool False, sub_needNewTicket = JUndefined,
             sub_needRetry = JUndefined, sub_error = ERR_SUBMIT_TIMEOUT, sub_account = a,
             sub_result = None\<rparr>]"
  using assms by (simp_all add: onTimeout_def)

text \<open>
  Claim C1. In every run of \<open>executeHighConcurrencySubmission\<close>, whatever the order in
  which attempts settle and timers fire, \<open>resolve\<close> is called at most once; it has been
  called exactly once as soon as the race is completed, which the timeout timer forces at
  the latest; and once it has been called, no later event calls it again or changes the
  value. Each of the three finalizers, run while \<open>completed\<close> is false, sets \<open>completed\<close>
  and calls \<open>resolve\<close> with its own result, and does nothing when \<open>completed\<close> is
  already true. So the first finalizer wins: when a \<open>submitted\<close> or \<open>duplicate\<close> result,
  a result that needs a new ticket, or the timeout reaches a race that is not completed,
  the promise is resolved with that event's result, whatever comes later.
\<close>

theorem race_resolves_exactly_once:
  "length (resolved (executeHighConcurrencySubmission sub a ts es)) \<le> 1
   \<and> (completed (executeHighConcurrencySubmission sub a ts es) \<longleftrightarrow>
        length (resolved (executeHighConcurrencySubmission sub a ts es)) = 1)
   \<and> (TimeoutTimer \<in> set es \<longrightarrow>
        length (resolved (executeHighConcurrencySubmission sub a ts es)) = 1)
   \<and> (completed (executeHighConcurrencySubmission sub a ts es) \<longrightarrow>
        resolved (executeHighConcurrencySubmission sub a ts (es @ es'))
          = resolved (executeHighConcurrencySubmission sub a ts es))
   \<and> (\<not> completed (executeHighConcurrencySubmission sub a ts es)
        \<and> 0 < pending (executeHighConcurrencySubmission sub a ts es)
        \<and> success res \<and> (status res = ''submitted'' \<or> status res = ''duplicate'') \<longrightarrow>
        resolved (executeHighConcurrencySubmission sub a ts (es @ Settled res # es'))
          = [\<lparr>sub_success = True, sub_completed = JBool True, sub_needNewTicket = JUndefined,
              sub_needRetry = JUndefined, sub_error = JUndefined, sub_account = a,
              sub_result = Some res\<rparr>])
   \<and> (\<not> completed (executeHighConcurrencySubmission sub a ts es)
        \<and> 0 < pending (executeHighConcurrencySubmission sub a ts es)
        \<and> \<not> (success res \<and> (status res = ''submitted'' \<or> status res = ''duplicate''))
        \<and> truthy (needNewTicket res) \<longrightarrow>
        resolved (executeHighConcurrencySubmission sub a ts (es @ Settled res # es'))
          = [\<lparr>sub_success = False, sub_completed = JBool False, sub_needNewTicket = JBool True,
              sub_needRetry = JUndefined, sub_error = JUndefined, sub_account = a,
              sub_result = None\<rparr>])
   \<and> (\<not> completed (executeHighConcurrencySubmission sub a ts es) \<longrightarrow>
        resolved (executeHighConcurrencySubmission sub a ts (es @ TimeoutTimer # es'))
          = [\<lparr>sub_success = False, sub_completed = JBool False, sub_needNewTicket = JUndefined,
              sub_needRetry = JUndefined, sub_error = ERR_SUBMIT_TIMEOUT, sub_account = a,
              sub_result = None\<rparr>])
   \<and> (\<not> completed s \<longrightarrow>
        handleSuccess a res s
          = s\<lparr>completed := True,
              resolved := resolved s @
                [\<lparr>sub_success = True, sub_completed = JBool True, sub_needNewTicket = JUndefined,
                  sub_needRetry = JUndefined, sub_error = JUndefined, sub_account = a,
                  sub_result = Some res\<rparr>]\<rparr>
        \<and> handleTicketExpired a s
          = s\<lparr>completed := True,
              resolved := resolved s @
                [\<lparr>sub_success = False, sub_completed = JBool False, sub_needNewTicket = JBool True,
                  sub_needRetry = JUndefined, sub_error = JUndefined, sub_account = a,
                  sub_result = None\<rparr>]\<rparr>
        \<and> onTimeout a s
          = s\<lparr>completed := True,
              resolved := resolved s @
                [\<lparr>sub_success = False, sub_completed = JBool False, sub_needNewTicket = JUndefined,
                  sub_needRetry = JUndefined, sub_error = ERR_SUBMIT_TIMEOUT, sub_account = a,
                  sub_result = None\<rparr>]\<rparr>)
   \<and> (completed s \<longrightarrow>
        handleSuccess a res s = s \<and> handleTicketExpired a s = s \<and> onTimeout a s = s)"
proof -
  let ?r = "executeHighConcurrencySubmission sub a ts es"
  have inv: "race_inv ?r"
    unfolding executeHighConcurrencySubmission_def by (rule run_inv[OF start_inv])
  have t: "TimeoutTimer \<in> set es \<Longrightarrow> completed ?r"
    unfolding executeHighConcurrencySubmission_def by (rule run_timeout[OF start_inv])
  have c: "completed ?r \<Longrightarrow> resolved (executeHighConcurrencySubmission sub a ts (es @ es')) = resolved ?r"
    unfolding executeHighConcurrencySubmission_def using run_completed by simp
  have count: "length (resolved ?r) \<le> 1
     \<and> (completed ?r \<longleftrightarrow> length (resolved ?r) = 1)
     \<and> (TimeoutTimer \<in> set es \<longrightarrow> length (resolved ?r) = 1)
     \<and> (completed ?r \<longrightarrow> resolved (executeHighConcurrencySubmission sub a ts (es @ es')) = resolved ?r)"
    using inv t c by (auto simp: race_inv_def split: if_splits)
  have win_success:
    "resolved (executeHighConcurrencySubmission sub a ts (es @ Settled res # es'))
          = [\<lparr>sub_success = True, sub_completed = JBool True, sub_needNewTicket = JUndefined,
              sub_needRetry = JUndefined, sub_error = JUndefined, sub_account = a,
              sub_result = Some res\<rparr>]"
    if h: "\<not> completed ?r \<and> 0 < pending ?r
        \<and> success res \<and> (status res = ''submitted'' \<or> status res = ''duplicate'')"
  proof -
    from h race_open[of sub a ts es] have o: "\<not> completed ?r" "resolved ?r = []" "0 < pending ?r"
      by simp_all
    from h have ok: "success res" "status res = ''submitted'' \<or> status res = ''duplicate''"
      by simp_all
    from finalized_stays[OF settle_success[OF o ok, of a ts], of a ts es']
    show ?thesis by (simp add: run_append)
  qed
  have win_ticket:
    "resolved (executeHighConcurrencySubmission sub a ts (es @ Settled res # es'))
          = [\<lparr>sub_success = False, sub_completed = JBool False, sub_needNewTicket = JBool True,
              sub_needRetry = JUndefined, sub_error = JUndefined, sub_account = a,
              sub_result = None\<rparr>]"
    if h: "\<not> completed ?r \<and> 0 < pending ?r
        \<and> \<not> (success res \<and> (status res = ''submitted'' \<or> status res = ''duplicate''))
        \<and> truthy (needNewTicket res)"
  proof -
    from h race_open[of sub a ts es] have o: "\<not> completed ?r" "resolved ?r = []" "0 < pending ?r"
      by simp_all
    from h have ok: "\<not> (success res \<and> (status res = ''submitted'' \<or> status res = ''duplicate''))"
      "truthy (needNewTicket res)" by simp_all
    from finalized_stays[OF settle_ticket_expired[OF o ok, of a ts], of a ts es']
    show ?thesis by (simp add: run_append)
  qed
  have win_timeout:
    "resolved (executeHighConcurrencySubmission sub a ts (es @ TimeoutTimer # es'))
          = [\<lparr>sub_success = False, sub_completed = JBool False, sub_needNewTicket = JUndefined,
              sub_needRetry = JUndefined, sub_error = ERR_SUBMIT_TIMEOUT, sub_account = a,
              sub_result = None\<rparr>]"
    if h: "\<not> completed ?r"
  proof -
    from h race_open[of sub a ts es] have o: "\<not> completed ?r" "resolved ?r = []" "timeoutTimer ?r"
      by simp_all
    from finalized_stays[OF timer_timeout[OF o, of a ts], of a ts es']
    show ?thesis by (simp add: run_append)
  qed
  have paths_open: "handleSuccess a res s
          = s\<lparr>completed := True,
              resolved := resolved s @
                [\<lparr>sub_success = True, sub_completed = JBool True, sub_needNewTicket = JUndefined,
                  sub_needRetry = JUndefined, sub_error = JUndefined, sub_account = a,
                  sub_result = Some res\<rparr>]\<rparr>
        \<and> handleTicketExpired a s
          = s\<lparr>completed := True,
              resolved := resolved s @
                [\<lparr>sub_success = False, sub_completed = JBool False, sub_needNewTicket = JBool True,
                  sub_needRetry = JUndefined, sub_error = JUndefined, sub_account = a,
                  sub_result = None\<rparr>]\<rparr>
        \<and> onTimeout a s
          = s\<lparr>completed := True,
              resolved := resolved s @
                [\<lparr>sub_success = False, sub_completed = JBool False, sub_needNewTicket = JUndefined,
                  sub_needRetry = JUndefined, sub_error = ERR_SUBMIT_TIMEOUT, sub_account = a,
                  sub_result = None\<rparr>]\<rparr>"
    if "\<not> completed s"
    using that by (simp add: handleSuccess_def handleTicketExpired_def onTimeout_def)
  have paths_closed:
    "handleSuccess a res s = s \<and> handleTicketExpired a s = s \<and> onTimeout a s = s"
    if "completed s"
    using that by (simp add: handleSuccess_def handleTicketExpired_def onTimeout_def)
  from count win_success win_ticket win_timeout paths_open paths_closed
  show ?thesis by blast
qed

text \<open>
  Two categories: the first attempt answers \<open>submitted\<close>, the second \<open>duplicate\<close> later.
  The race resolves with the first, and no second round starts.
\<close>

lemma race_example:
  "resolved (executeHighConcurrencySubmission sub0 acct0 [task0, task1]
      [Settled (executeSubmitTask task0 (Inr (answered body_submitted))),
       Settled (executeSubmitTask task1 (Inr (answered body_duplicate))),
       RoundTimer, TimeoutTimer])
   = [\<lparr>sub_success = True, sub_completed = JBool True, sub_needNewTicket = JUndefined,
       sub_needRetry = JUndefined, sub_error = JUndefined, sub_account = acct0,
       sub_result = Some (executeSubmitTask task0 (Inr (answered body_submitted)))\<rparr>]
   \<and> roundCounter (executeHighConcurrencySubmission sub0 acct0 [task0, task1]
      [Settled (executeSubmitTask task0 (Inr (answered body_submitted))),
       Settled (executeSubmitTask task1 (Inr (answered body_duplicate))),
       RoundTimer, TimeoutTimer]) = 1"
  by (simp add: eval_defs)

theorem race_resolves_exactly_once_witness:
  "TimeoutTimer \<in> set [Settled (executeSubmitTask task0 (Inr (answered body_submitted))),
         Settled (executeSubmitTask task1 (Inr (answered body_duplicate))),
         TimeoutTimer]
   \<and> completed (executeHighConcurrencySubmission sub0 acct0 [task0, task1]
        [Settled (executeSubmitTask task0 (Inr (answered body_submitted))),
         Settled (executeSubmitTask task1 (Inr (answered body_duplicate))),
         TimeoutTimer])
   \<and> length (resolved (executeHighConcurrencySubmission sub0 acct0 [task0, task1]
        [Settled (executeSubmitTask task0 (Inr (answered body_submitted))),
         Settled (executeSubmitTask task1 (Inr (answered body_duplicate))),
         TimeoutTimer])) = 1
   \<and> resolved (executeHighConcurrencySubmission sub0 acct0 [task0, task1]
        ([Settled (executeSubmitTask task0 (Inr (answered body_submitted))),
         Settled (executeSubmitTask task1 (Inr (answered body_duplicate))),
         TimeoutTimer] @ [Settled (executeSubmitTask task0 (Inr (answered body_submitted))), RoundTimer]))
     = resolved (executeHighConcurrencySubmission sub0 acct0 [task0, task1]
        [Settled (executeSubmitTask task0 (Inr (answered body_submitted))),
         Settled (executeSubmitTask task1 (Inr (answered body_duplicate))),
         TimeoutTimer])
   \<and> \<not> completed (executeHighConcurrencySubmission sub0 acct0 [task0, task1] [])
   \<and> 0 < pending (executeHighConcurrencySubmission sub0 acct0 [task0, task1] [])
   \<and> success (executeSubmitTask task0 (Inr (answered body_submitted)))
   \<and> (status (executeSubmitTask task0 (Inr (answered body_submitted))) = ''submitted''
        \<or> status (executeSubmitTask task0 (Inr (answered body_submitted))) = ''duplicate'')
   \<and> resolved (executeHighConcurrencySubmission sub0 acct0 [task0, task1]
        ([] @ Settled (executeSubmitTask task0 (Inr (answered body_submitted))) #
           [Settled (executeSubmitTask task1 (Inr (answered body_duplicate))), TimeoutTimer]))
     = [\<lparr>sub_success = True, sub_completed = JBool True, sub_needNewTicket = JUndefined,
          sub_needRetry = JUndefined, sub_error = JUndefined, sub_account = acct0,
          sub_result = Some (executeSubmitTask task0 (Inr (answered body_submitted)))\<rparr>]
   \<and> \<not> (success (executeSubmitTask task0 (Inr (answered body_ticket_invalid)))
        \<and> (status (executeSubmitTask task0 (Inr (answered body_ticket_invalid))) = ''submitted''
           \<or> status (executeSubmitTask task0 (Inr (answered body_ticket_invalid))) = ''duplicate''))
   \<and> truthy (needNewTicket (executeSubmitTask task0 (Inr (answered body_ticket_invalid))))
   \<and> resolved (executeHighConcurrencySubmission sub0 acct0 [task0, task1]
        ([] @ Settled (executeSubmitTask task0 (Inr (answered body_ticket_invalid))) #
           [Settled (executeSubmitTask task0 (Inr (answered body_submitted))), TimeoutTimer]))
     = [\<lparr>sub_success = False, sub_completed = JBool False, sub_needNewTicket = JBool True,
          sub_needRetry = JUndefined, sub_error = JUndefined, sub_account = acct0,
          sub_result = None\<rparr>]
   \<and> resolved (executeHighConcurrencySubmission sub0 acct0 [task0, task1]
        ([] @ TimeoutTimer # [Settled (executeSubmitTask task0 (Inr (answered body_submitted)))]))
     = [\<lparr>sub_success = False, sub_completed = JBool False, sub_needNewTicket = JUndefined,
          sub_needRetry = JUndefined, sub_error = ERR_SUBMIT_TIMEOUT, sub_account = acct0,
          sub_result = None\<rparr>]
   \<and> \<not> completed (race_start sub0 [task0, task1])
   \<and> handleTicketExpired acct0 (race_start sub0 [task0, task1])
     = (race_start sub0 [task0, task1])\<lparr>completed := True,
         resolved := resolved (race_start sub0 [task0, task1]) @
           [\<lparr>sub_success = False, sub_completed = JBool False, sub_needNewTicket = JBool True,
          sub_needRetry = JUndefined, sub_error = JUndefined, sub_account = acct0,
          sub_result = None\<rparr>]\<rparr>
   \<and> completed (executeHighConcurrencySubmission sub0 acct0 [task0, task1]
        [Settled (executeSubmitTask task0 (Inr (answered body_submitted)))])
   \<and> handleSuccess acct0 (executeSubmitTask task1 (Inr (answered body_duplicate)))
        (executeHighConcurrencySubmission sub0 acct0 [task0, task1]
           [Settled (executeSubmitTask task0 (Inr (answered body_submitted)))])
     = executeHighConcurrencySubmission sub0 acct0 [task0, task1]
           [Settled (executeSubmitTask task0 (Inr (answered body_submitted)))]"
proof -
  have h1: "TimeoutTimer \<in> set [Settled (executeSubmitTask task0 (Inr (answered body_submitted))),
         Settled (executeSubmitTask task1 (Inr (answered body_duplicate))),
         TimeoutTimer]"
    by simp
  have h2: "\<not> completed (executeHighConcurrencySubmission sub0 acct0 [task0, task1] [])"
    "0 < pending (executeHighConcurrencySubmission sub0 acct0 [task0, task1] [])"
    "success (executeSubmitTask task0 (Inr (answered body_submitted)))"
    "(status (executeSubmitTask task0 (Inr (answered body_submitted))) = ''submitted''
        \<or> status (executeSubmitTask task0 (Inr (answered body_submitted))) = ''duplicate'')"
    by (simp_all add: eval_defs)
  have h3: "\<not> (success (executeSubmitTask task0 (Inr (answered body_ticket_invalid)))
        \<and> (status (executeSubmitTask task0 (Inr (answered body_ticket_invalid))) = ''submitted''
           \<or> status (executeSubmitTask task0 (Inr (answered body_ticket_invalid))) = ''duplicate''))"
    "truthy (needNewTicket (executeSubmitTask task0 (Inr (answered body_ticket_invalid))))"
    by (simp_all add: eval_defs body_ticket_invalid_def)
  have h5: "\<not> completed (race_start sub0 [task0, task1])"
    by (simp add: eval_defs)
  have h6: "completed (executeHighConcurrencySubmission sub0 acct0 [task0, task1]
        [Settled (executeSubmitTask task0 (Inr (answered body_submitted)))])"
    by (simp add: eval_defs)
  note a = race_resolves_exactly_once[of sub0 acct0 "[task0, task1]"
      "[Settled (executeSubmitTask task0 (Inr (answered body_submitted))),
         Settled (executeSubmitTask task1 (Inr (answered body_duplicate))),
         TimeoutTimer]"
      "[Settled (executeSubmitTask task0 (Inr (answered body_submitted))), RoundTimer]"]
  note b = race_resolves_exactly_once[of sub0 acct0 "[task0, task1]" "[]"
      "[Settled (executeSubmitTask task1 (Inr (answered body_duplicate))), TimeoutTimer]"
      "executeSubmitTask task0 (Inr (answered body_submitted))"]
  note c = race_resolves_exactly_once[of sub0 acct0 "[task0, task1]" "[]"
      "[Settled (executeSubmitTask task0 (Inr (answered body_submitted))), TimeoutTimer]"
      "executeSubmitTask task0 (Inr (answered body_ticket_invalid))"]
  note d = race_resolves_exactly_once[of sub0 acct0 "[task0, task1]" "[]"
      "[Settled (executeSubmitTask task0 (Inr (answered body_submitted)))]"
      "executeSubmitTask task0 (Inr (answered body_submitted))" "race_start sub0 [task0, task1]"]
  note e = race_resolves_exactly_once[of sub0 acct0 "[task0, task1]" "[]" "[]"
      "executeSubmitTask task1 (Inr (answered body_duplicate))"
      "executeHighConcurrencySubmission sub0 acct0 [task0, task1]
         [Settled (executeSubmitTask task0 (Inr (answered body_submitted)))]"]
  from a h1 have 1: "completed (executeHighConcurrencySubmission sub0 acct0 [task0, task1]
        [Settled (executeSubmitTask task0 (Inr (answered body_submitted))),
         Settled (executeSubmitTask task1 (Inr (answered body_duplicate))),
         TimeoutTimer])"
    "length (resolved (executeHighConcurrencySubmission sub0 acct0 [task0, task1]
        [Settled (executeSubmitTask task0 (Inr (answered body_submitted))),
         Settled (executeSubmitTask task1 (Inr (answered body_duplicate))),
         TimeoutTimer])) = 1"
    "resolved (executeHighConcurrencySubmission sub0 acct0 [task0, task1]
        ([Settled (executeSubmitTask task0 (Inr (answered body_submitted))),
         Settled (executeSubmitTask task1 (Inr (answered body_duplicate))),
         TimeoutTimer] @ [Settled (executeSubmitTask task0 (Inr (answered body_submitted))), RoundTimer]))
     = resolved (executeHighConcurrencySubmission sub0 acct0 [task0, task1]
        [Settled (executeSubmitTask task0 (Inr (answered body_submitted))),
         Settled (executeSubmitTask task1 (Inr (answered body_duplicate))),
         TimeoutTimer])"
    by blast+
  from b h2 have 2: "resolved (executeHighConcurrencySubmission sub0 acct0 [task0, task1]
        ([] @ Settled (executeSubmitTask task0 (Inr (answered body_submitted))) #
           [Settled (executeSubmitTask task1 (Inr (answered body_duplicate))), TimeoutTimer]))
     = [\<lparr>sub_success = True, sub_completed = JBool True, sub_needNewTicket = JUndefined,
          sub_needRetry = JUndefined, sub_error = JUndefined, sub_account = acct0,
          sub_result = Some (executeSubmitTask task0 (Inr (answered body_submitted)))\<rparr>]"
    by blast
  from c h2(1,2) h3 have 3: "resolved (executeHighConcurrencySubmission sub0 acct0 [task0, task1]
        ([] @ Settled (executeSubmitTask task0 (Inr (answered body_ticket_invalid))) #
           [Settled (executeSubmitTask task0 (Inr (answered body_submitted))), TimeoutTimer]))
     = [\<lparr>sub_success = False, sub_completed = JBool False, sub_needNewTicket = JBool True,
          sub_needRetry = JUndefined, sub_error = JUndefined, sub_account = acct0,
          sub_result = None\<rparr>]"
    by blast
  from d h2(1) have 4: "resolved (executeHighConcurrencySubmission sub0 acct0 [task0, task1]
        ([] @ TimeoutTimer # [Settled (executeSubmitTask task0 (Inr (answered body_submitted)))]))
     = [\<lparr>sub_success = False, sub_completed = JBool False, sub_needNewTicket = JUndefined,
          sub_needRetry = JUndefined, sub_error = ERR_SUBMIT_TIMEOUT, sub_account = acct0,
          sub_result = None\<rparr>]"
    by blast
  from d h5 have 5: "handleTicketExpired acct0 (race_start sub0 [task0, task1])
     = (race_start sub0 [task0, task1])\<lparr>completed := True,
         resolved := resolved (race_start sub0 [task0, task1]) @
           [\<lparr>sub_success = False, sub_completed = JBool False, sub_needNewTicket = JBool True,
          sub_needRetry = JUndefined, sub_error = JUndefined, sub_account = acct0,
          sub_result = None\<rparr>]\<rparr>"
    by blast
  from e h6 have 6: "handleSuccess acct0 (executeSubmitTask task1 (Inr (answered body_duplicate)))
        (executeHighConcurrencySubmission sub0 acct0 [task0, task1]
           [Settled (executeSubmitTask task0 (Inr (answered body_submitted)))])
     = executeHighConcurrencySubmission sub0 acct0 [task0, task1]
           [Settled (executeSubmitTask task0 (Inr (answered body_submitted)))]"
    by blast
  from h1 1 h2 2 h3 3 4 h5 5 h6 6 show ?thesis by blast
qed

section \<open>No round after the race is finalized\<close>

lemma fold_dispatch_stopped:
  "completed s \<or> \<not> isRunning (this s) \<Longrightarrow> fold dispatch ts s = s"
  by (induction ts) (simp_all add: dispatch_def)

lemma step_counts:
  "roundCounter (step a ts e s) \<noteq> roundCounter s \<or> issued (step a ts e s) \<noteq> issued s
     \<Longrightarrow> \<not> completed s \<and> isRunning (this s)"
  by (cases e) (auto simp: startSubmissionRound_def onTaskResult_def onTimeout_def
       handleSuccess_def handleTicketExpired_def split: if_splits)

text \<open>
  Claim C4. \<open>startSubmissionRound\<close> and the dispatch of a task do nothing once
  \<open>completed\<close> is true or the submitter is stopped; an event that starts a round or sends
  a request finds \<open>completed\<close> false and the submitter running; and after the race is
  completed, no later event starts a round or sends a request.
\<close>

theorem no_round_after_finalization:
  "(completed s \<or> \<not> isRunning (this s) \<longrightarrow>
      startSubmissionRound ts s = s \<and> dispatch t s = s)
   \<and> (roundCounter (step a ts e s) \<noteq> roundCounter s \<or> issued (step a ts e s) \<noteq> issued s
        \<longrightarrow> \<not> completed s \<and> isRunning (this s))
   \<and> (completed (executeHighConcurrencySubmission sub a ts es) \<longrightarrow>
        roundCounter (executeHighConcurrencySubmission sub a ts (es @ es'))
          = roundCounter (executeHighConcurrencySubmission sub a ts es)
        \<and> issued (executeHighConcurrencySubmission sub a ts (es @ es'))
          = issued (executeHighConcurrencySubmission sub a ts es))"
proof (intro conjI impI)
  assume "completed s \<or> \<not> isRunning (this s)"
  then show "startSubmissionRound ts s = s" by (auto simp: startSubmissionRound_def)
next
  assume "completed s \<or> \<not> isRunning (this s)"
  then show "dispatch t s = s" by (auto simp: dispatch_def)
next
  assume "roundCounter (step a ts e s) \<noteq> roundCounter s \<or> issued (step a ts e s) \<noteq> issued s"
  then show "\<not> completed s" using step_counts by blast
next
  assume "roundCounter (step a ts e s) \<noteq> roundCounter s \<or> issued (step a ts e s) \<noteq> issued s"
  then show "isRunning (this s)" using step_counts by blast
next
  assume c: "completed (executeHighConcurrencySubmission sub a ts es)"
  then show "roundCounter (executeHighConcurrencySubmission sub a ts (es @ es'))
          = roundCounter (executeHighConcurrencySubmission sub a ts es)"
    unfolding executeHighConcurrencySubmission_def using run_completed by simp
next
  assume c: "completed (executeHighConcurrencySubmission sub a ts es)"
  then show "issued (executeHighConcurrencySubmission sub a ts (es @ es'))
          = issued (executeHighConcurrencySubmission sub a ts es)"
    unfolding executeHighConcurrencySubmission_def using run_completed by simp
qed

lemma race_after_success:
  "completed (executeHighConcurrencySubmission sub0 acct0 [task0, task1]
        [Settled (executeSubmitTask task0 (Inr (answered body_submitted)))])"
  by (simp add: eval_defs)

lemma race_start_open:
  "\<not> completed (race_start sub0 [task0, task1]) \<and> isRunning (this (race_start sub0 [task0, task1]))
   \<and> roundCounter (step acct0 [task0, task1] RoundTimer (race_start sub0 [task0, task1])) = 2
   \<and> roundCounter (race_start sub0 [task0, task1]) = 1
   \<and> issued (race_start sub0 [task0, task1]) = [task0, task1]"
  by (simp add: eval_defs)

theorem no_round_after_finalization_witness:
  "completed (executeHighConcurrencySubmission sub0 acct0 [task0, task1]
        [Settled (executeSubmitTask task0 (Inr (answered body_submitted)))])
   \<and> startSubmissionRound [task0, task1]
        (executeHighConcurrencySubmission sub0 acct0 [task0, task1]
           [Settled (executeSubmitTask task0 (Inr (answered body_submitted)))])
      = executeHighConcurrencySubmission sub0 acct0 [task0, task1]
           [Settled (executeSubmitTask task0 (Inr (answered body_submitted)))]
   \<and> roundCounter (step acct0 [task0, task1] RoundTimer (race_start sub0 [task0, task1]))
        \<noteq> roundCounter (race_start sub0 [task0, task1])
   \<and> \<not> completed (race_start sub0 [task0, task1])
   \<and> isRunning (this (race_start sub0 [task0, task1]))
   \<and> issued (executeHighConcurrencySubmission sub0 acct0 [task0, task1]
        ([Settled (executeSubmitTask task0 (Inr (answered body_submitted)))] @ [RoundTimer, RoundTimer]))
      = issued (executeHighConcurrencySubmission sub0 acct0 [task0, task1]
        [Settled (executeSubmitTask task0 (Inr (answered body_submitted)))])"
  using no_round_after_finalization[of
      "executeHighConcurrencySubmission sub0 acct0 [task0, task1]
         [Settled (executeSubmitTask task0 (Inr (answered body_submitted)))]"
      "[task0, task1]" task0 acct0 RoundTimer sub0
      "[Settled (executeSubmitTask task0 (Inr (answered body_submitted)))]" "[RoundTimer, RoundTimer]"]
    no_round_after_finalization[of "race_start sub0 [task0, task1]"
      "[task0, task1]" task0 acct0 RoundTimer sub0 "[]" "[]"]
    race_after_success race_start_open
  by simp

section \<open>Submitting for a completed account\<close>

text \<open>
  Claim C9. For an account whose id is a key of \<open>accountStatuses\<close>, \<open>submitForAccount\<close>
  returns \<open>{success: true, completed: true, account}\<close> at once: no tasks are generated, no
  round is started, no request is sent, the submitter is unchanged, and a second call
  gives the same.
\<close>

theorem submitForAccount_completed_account:
  assumes "accId acct \<in> dom (accountStatuses sub)"
  shows "submitForAccount sub acct tk events =
           \<lparr>returned = Some \<lparr>sub_success = True, sub_completed = JBool True,
                             sub_needNewTicket = JUndefined, sub_needRetry = JUndefined,
                             sub_error = JUndefined, sub_account = acct, sub_result = None\<rparr>,
            submitter_after = sub, generated = None, requests = [], rounds = 0\<rparr>
       \<and> submitForAccount (submitter_after (submitForAccount sub acct tk events)) acct tk' events'
           = submitForAccount sub acct tk events"
  using assms by (simp add: submitForAccount_def isAccountCompleted_def)

theorem submitForAccount_completed_account_witness:
  "accId acct0 \<in> dom (accountStatuses (markAccountCompleted sub0 (accId acct0) ''success'' 0))
   \<and> requests (submitForAccount (markAccountCompleted sub0 (accId acct0) ''success'' 0) acct0
        (str ''tk'') [RoundTimer, TimeoutTimer]) = []
   \<and> submitter_after (submitForAccount (markAccountCompleted sub0 (accId acct0) ''success'' 0) acct0
        (str ''tk'') [RoundTimer, TimeoutTimer]) = markAccountCompleted sub0 (accId acct0) ''success'' 0"
proof -
  have h: "accId acct0 \<in> dom (accountStatuses (markAccountCompleted sub0 (accId acct0) ''success'' 0))"
    by (simp add: markAccountCompleted_def)
  from submitForAccount_completed_account[OF h, of "str ''tk''" "[RoundTimer, TimeoutTimer]"] h
  show ?thesis by simp
qed


section \<open>A duplicate submission counts as completed\<close>

lemma count_result_total:
  "count_result r (st\<lparr>n_total := k\<rparr>) = (count_result r st)\<lparr>n_total := k\<rparr>"
  by (cases r) (simp_all add: count_result_def)

lemma fold_count_result_total:
  "fold count_result rs (st\<lparr>n_total := k\<rparr>) = (fold count_result rs st)\<lparr>n_total := k\<rparr>"
  by (induction rs arbitrary: st) (simp_all add: count_result_total)

lemma calculateResultStats_snoc:
  "calculateResultStats (rs @ [r]) = (count_result r (calculateResultStats rs))\<lparr>n_total := length rs + 1\<rparr>"
proof -
  let ?z = "\<lparr>n_success = 0, n_duplicate = 0, n_fail = 0, n_total = length rs\<rparr>"
  have "\<lparr>n_success = 0, n_duplicate = 0, n_fail = 0, n_total = length (rs @ [r])\<rparr> = ?z\<lparr>n_total := length rs + 1\<rparr>"
    by simp
  then show ?thesis
    unfolding calculateResultStats_def
    by (simp only: fold_append o_apply fold_simps fold_count_result_total count_result_total)
qed

lemma parse_duplicate:
  assumes "js_get apiResult (str ''success'') = Inr ok" "truthy ok"
    and "js_get apiResult (str ''data'') = Inr d" "truthy d" "typeof_object d"
    and "js_get d (str ''success'') = Inr (JBool False)"
    and "js_get d (str ''code'') = Inr c" "c \<noteq> JStr (str ''TICKET_INVALID'')"
    and "js_get d (str ''message'') = Inr (JStr m)" "str_includes m DUPLICATE_MARKER"
  shows "status (parseSubmitResponse apiResult) = ''duplicate''"
    and "success (parseSubmitResponse apiResult)"
    and "\<not> truthy (needNewTicket (parseSubmitResponse apiResult))"
proof -
  from assms(10) have "m \<noteq> []" by (auto simp: DUPLICATE_MARKER_def)
  then have msg: "js_or (JStr m) (JStr []) = JStr m" by (simp add: js_or_def)
  obtain rid where rid: "js_get d (str ''requestId'') = Inr rid"
    using assms(4) by (cases d) auto
  have body: "parseSubmitResponse_body apiResult =
      Inr ((mk_result True ''duplicate'' (JStr m) False)\<lparr>code := c, requestId := rid\<rparr>)"
    unfolding parseSubmitResponse_body_def using assms rid msg by (simp add: Let_def)
  show "status (parseSubmitResponse apiResult) = ''duplicate''"
    and "success (parseSubmitResponse apiResult)"
    and "\<not> truthy (needNewTicket (parseSubmitResponse apiResult))"
    by (simp_all add: parseSubmitResponse_def body mk_result_def)
qed

lemma executeSubmitTask_fields:
  "success (executeSubmitTask t (Inr r)) = success (parseSubmitResponse r)"
  "status (executeSubmitTask t (Inr r)) = status (parseSubmitResponse r)"
  "needNewTicket (executeSubmitTask t (Inr r)) = needNewTicket (parseSubmitResponse r)"
  "task (executeSubmitTask t (Inr r)) = t"
  by (simp_all add: executeSubmitTask_def submit_result.extend_def task_result.fields_def submit_result.defs task_result.defs)

text \<open>
  A failure body whose message contains the marker and whose code is \<open>TICKET_INVALID\<close>:
  the code is tested first, so the result is \<open>ticket_invalid\<close> with \<open>success\<close> false.
\<close>

theorem duplicate_marker_counterexample:
  "status (parseSubmitResponse (answered (JObj [(str ''success'', JBool False),
       (str ''code'', JStr (str ''TICKET_INVALID'')), (str ''message'', JStr DUPLICATE_MARKER)])))
     = ''ticket_invalid''
   \<and> \<not> success (parseSubmitResponse (answered (JObj [(str ''success'', JBool False),
       (str ''code'', JStr (str ''TICKET_INVALID'')), (str ''message'', JStr DUPLICATE_MARKER)])))
   \<and> str_includes DUPLICATE_MARKER DUPLICATE_MARKER"
  by (simp add: eval_defs)

text \<open>
  Claim C2, amended. An answered request whose body has \<open>success === false\<close>, a code
  other than \<open>TICKET_INVALID\<close> and a message string that contains the marker is parsed
  as \<open>duplicate\<close> with \<open>success\<close> true. In a race not yet completed its arrival runs
  \<open>handleSuccess\<close>, which resolves with \<open>{success: true, completed: true}\<close> as for a
  \<open>submitted\<close> result; the account's flow then returns a successful result of type
  \<open>duplicate\<close>, and \<open>calculateResultStats\<close> adds it to the \<open>duplicate\<close> counter, not
  to \<open>fail\<close> and not to \<open>success\<close>.
\<close>

theorem duplicate_counts_as_completed:
  assumes "js_get apiResult (str ''success'') = Inr ok" and "truthy ok"
    and "js_get apiResult (str ''data'') = Inr d" and "truthy d" and "typeof_object d"
    and "js_get d (str ''success'') = Inr (JBool False)"
    and "js_get d (str ''code'') = Inr c" and "c \<noteq> JStr (str ''TICKET_INVALID'')"
    and "js_get d (str ''message'') = Inr (JStr m)" and "str_includes m DUPLICATE_MARKER"
    and "\<not> completed s"
    and "tr_success tr" and "valid v"
    and "res = executeSubmitTask t (Inr apiResult)"
    and "sr = \<lparr>sub_success = True, sub_completed = JBool True, sub_needNewTicket = JUndefined,
               sub_needRetry = JUndefined, sub_error = JUndefined, sub_account = acct,
               sub_result = Some res\<rparr>"
    and "fr = \<lparr>fr_success = True, fr_account = acct, fr_type = ''duplicate'', fr_result = Some sr\<rparr>"
  shows "status (parseSubmitResponse apiResult) = ''duplicate''
       \<and> success (parseSubmitResponse apiResult)
       \<and> onTaskResult acct res s = handleSuccess acct res s
       \<and> (\<forall>res'. success res' \<and> status res' = ''submitted'' \<longrightarrow>
             onTaskResult acct res' s = handleSuccess acct res' s)
       \<and> onTaskResult acct res s = s\<lparr>completed := True, resolved := resolved s @ [sr]\<rparr>
       \<and> snd (flowPass acct \<lparr>ticketResult = Inr tr, validationResult = v, submissionResult = sr\<rparr>)
            = Return fr
       \<and> n_duplicate (calculateResultStats (rs @ [Fulfilled fr])) = n_duplicate (calculateResultStats rs) + 1
       \<and> n_success (calculateResultStats (rs @ [Fulfilled fr])) = n_success (calculateResultStats rs)
       \<and> n_fail (calculateResultStats (rs @ [Fulfilled fr])) = n_fail (calculateResultStats rs)"
proof -
  note p = parse_duplicate[OF assms(1-10)]
  have r: "success res" "status res = ''duplicate''"
    using p by (simp_all add: assms(14) executeSubmitTask_fields)
  have 1: "onTaskResult acct res s = handleSuccess acct res s"
    using r assms(11) by (simp add: onTaskResult_def)
  have 2: "handleSuccess acct res s = s\<lparr>completed := True, resolved := resolved s @ [sr]\<rparr>"
    using assms(11) by (simp add: handleSuccess_def assms(15))
  have 3: "snd (flowPass acct \<lparr>ticketResult = Inr tr, validationResult = v, submissionResult = sr\<rparr>) = Return fr"
    using assms(12,13) r by (simp add: flowPass_def Let_def assms(15,16) flow_type_def)
  have 4: "count_result (Fulfilled fr) st = st\<lparr>n_duplicate := n_duplicate st + 1\<rparr>" for st
    by (simp add: count_result_def assms(16))
  have 5: "\<forall>res'. success res' \<and> status res' = ''submitted'' \<longrightarrow>
             onTaskResult acct res' s = handleSuccess acct res' s"
    using assms(11) by (simp add: onTaskResult_def)
  show ?thesis using p(1,2) 1 2 3 5 by (simp add: calculateResultStats_snoc 4)
qed

theorem duplicate_counts_as_completed_witness:
  "js_get (answered body_duplicate) (str ''success'') = Inr (JBool True)
   \<and> js_get (answered body_duplicate) (str ''data'') = Inr body_duplicate
   \<and> js_get body_duplicate (str ''success'') = Inr (JBool False)
   \<and> js_get body_duplicate (str ''code'') = Inr (JStr (str ''E1''))
   \<and> JStr (str ''E1'') \<noteq> JStr (str ''TICKET_INVALID'')
   \<and> js_get body_duplicate (str ''message'') = Inr (JStr DUPLICATE_MARKER)
   \<and> str_includes DUPLICATE_MARKER DUPLICATE_MARKER
   \<and> \<not> completed (race_start sub0 [task0])
   \<and> tr_success ticket0 \<and> valid valid0
   \<and> status (parseSubmitResponse (answered body_duplicate)) = ''duplicate''
   \<and> onTaskResult acct0 (executeSubmitTask task0 (Inr (answered body_duplicate)))
        (race_start sub0 [task0])
      = handleSuccess acct0 (executeSubmitTask task0 (Inr (answered body_duplicate)))
        (race_start sub0 [task0])
   \<and> n_duplicate (calculateResultStats ([] @ [Fulfilled
        \<lparr>fr_success = True, fr_account = acct0, fr_type = ''duplicate'',
         fr_result = Some \<lparr>sub_success = True, sub_completed = JBool True,
           sub_needNewTicket = JUndefined, sub_needRetry = JUndefined, sub_error = JUndefined,
           sub_account = acct0,
           sub_result = Some (executeSubmitTask task0 (Inr (answered body_duplicate)))\<rparr>\<rparr>]))
      = n_duplicate (calculateResultStats []) + 1
   \<and> n_fail (calculateResultStats ([] @ [Fulfilled
        \<lparr>fr_success = True, fr_account = acct0, fr_type = ''duplicate'',
         fr_result = Some \<lparr>sub_success = True, sub_completed = JBool True,
           sub_needNewTicket = JUndefined, sub_needRetry = JUndefined, sub_error = JUndefined,
           sub_account = acct0,
           sub_result = Some (executeSubmitTask task0 (Inr (answered body_duplicate)))\<rparr>\<rparr>]))
      = n_fail (calculateResultStats [])"
proof -
  have h1: "js_get (answered body_duplicate) (str ''success'') = Inr (JBool True)"
    and h2: "truthy (JBool True)"
    and h3: "js_get (answered body_duplicate) (str ''data'') = Inr body_duplicate"
    and h4: "truthy body_duplicate" and h5: "typeof_object body_duplicate"
    and h6: "js_get body_duplicate (str ''success'') = Inr (JBool False)"
    and h7: "js_get body_duplicate (str ''code'') = Inr (JStr (str ''E1''))"
    and h8: "JStr (str ''E1'') \<noteq> JStr (str ''TICKET_INVALID'')"
    and h9: "js_get body_duplicate (str ''message'') = Inr (JStr DUPLICATE_MARKER)"
    and h10: "str_includes DUPLICATE_MARKER DUPLICATE_MARKER"
    by (simp_all add: answered_def body_duplicate_def str_def DUPLICATE_MARKER_def)
  have h11: "\<not> completed (race_start sub0 [task0])"
    by (simp add: race_start_def startSubmissionRound_def dispatch_def sub0_def Let_def)
  have h12: "tr_success ticket0" and h13: "valid valid0"
    by (simp_all add: ticket0_def valid0_def)
  from duplicate_counts_as_completed[OF h1 h2 h3 h4 h5 h6 h7 h8 h9 h10 h11 h12 h13 refl refl refl,
      where t = task0 and acct = acct0 and rs = "[]"]
    h1 h3 h6 h7 h8 h9 h10 h11 h12 h13
  show ?thesis by blast
qed

section \<open>An invalid ticket sends the flow back to acquisition\<close>

lemma parse_ticket_invalid:
  assumes "js_get apiResult (str ''success'') = Inr ok" "truthy ok"
    and "js_get apiResult (str ''data'') = Inr d" "truthy d" "typeof_object d"
    and "js_get d (str ''success'') = Inr (JBool False)"
    and "js_get d (str ''code'') = Inr (JStr (str ''TICKET_INVALID''))"
  shows "status (parseSubmitResponse apiResult) = ''ticket_invalid''"
    and "\<not> success (parseSubmitResponse apiResult)"
    and "needNewTicket (parseSubmitResponse apiResult) = JBool True"
proof -
  obtain rid where rid: "js_get d (str ''requestId'') = Inr rid"
    using assms(4) by (cases d) auto
  obtain msg where msg: "js_get d (str ''message'') = Inr msg"
    using assms(4) by (cases d) auto
  have body: "parseSubmitResponse_body apiResult =
      Inr ((mk_result False ''ticket_invalid'' MSG_TICKET_EXPIRED False)
             \<lparr>code := JStr (str ''TICKET_INVALID''), needNewTicket := JBool True\<rparr>)"
    unfolding parseSubmitResponse_body_def using assms rid msg by (simp add: Let_def)
  show "status (parseSubmitResponse apiResult) = ''ticket_invalid''"
    and "\<not> success (parseSubmitResponse apiResult)"
    and "needNewTicket (parseSubmitResponse apiResult) = JBool True"
    by (simp_all add: parseSubmitResponse_def body mk_result_def)
qed

lemma flow_continue:
  "snd (flowPass acct env) = Continue \<Longrightarrow>
   executeIndependentAccountFlow acct ((True, env) # rest) =
     (fst (flowPass acct env) @ fst (executeIndependentAccountFlow acct rest),
      snd (executeIndependentAccountFlow acct rest))"
  by (cases "flowPass acct env") (simp add: case_prod_beta)

lemma flowPass_starts: "\<exists>acts. fst (flowPass acct env) = GetTicket # acts"
  by (simp add: flowPass_def Let_def split: sum.splits)

lemma flow_starts:
  "\<exists>acts. fst (executeIndependentAccountFlow acct ((True, env) # rest)) = GetTicket # acts"
  using flowPass_starts[of acct env]
  by (cases "flowPass acct env"; cases "snd (flowPass acct env)") (auto simp: case_prod_beta)

text \<open>
  A body that carries the code \<open>TICKET_INVALID\<close> and has no \<open>success\<close> property: the
  code is read only under \<open>success === false\<close>, so the result is \<open>unknown\<close> and the race
  goes on.
\<close>

theorem ticket_code_without_failure_counterexample:
  "status (parseSubmitResponse (answered (JObj [(str ''code'', JStr (str ''TICKET_INVALID''))])))
     = ''unknown''
   \<and> needNewTicket (parseSubmitResponse (answered (JObj [(str ''code'', JStr (str ''TICKET_INVALID''))])))
     = JUndefined
   \<and> \<not> completed (executeHighConcurrencySubmission sub0 acct0 [task0]
        [Settled (executeSubmitTask task0
           (Inr (answered (JObj [(str ''code'', JStr (str ''TICKET_INVALID''))]))))])
   \<and> resolved (executeHighConcurrencySubmission sub0 acct0 [task0]
        [Settled (executeSubmitTask task0
           (Inr (answered (JObj [(str ''code'', JStr (str ''TICKET_INVALID''))]))))]) = []"
  by (simp add: eval_defs)

text \<open>
  Claim C8, amended. An answered request whose body has \<open>success === false\<close> and the
  code \<open>TICKET_INVALID\<close> is parsed as \<open>ticket_invalid\<close> with \<open>success\<close> false and
  \<open>needNewTicket\<close> true. In a race not yet completed its arrival completes the race and
  resolves with \<open>{success: false, completed: false, needNewTicket: true}\<close>. On that
  result the account's flow makes no further call in the pass and goes on with what a
  fresh flow does on the remaining passes, which begins with \<open>getTicketForAccount\<close>.
\<close>

theorem ticket_invalid_restarts_from_acquisition:
  assumes "js_get apiResult (str ''success'') = Inr ok" and "truthy ok"
    and "js_get apiResult (str ''data'') = Inr d" and "truthy d" and "typeof_object d"
    and "js_get d (str ''success'') = Inr (JBool False)"
    and "js_get d (str ''code'') = Inr (JStr (str ''TICKET_INVALID''))"
    and "\<not> completed s"
    and "tr_success tr" and "valid v"
    and "res = executeSubmitTask t (Inr apiResult)"
    and "sr = \<lparr>sub_success = False, sub_completed = JBool False, sub_needNewTicket = JBool True,
               sub_needRetry = JUndefined, sub_error = JUndefined, sub_account = acct,
               sub_result = None\<rparr>"
    and "env = \<lparr>ticketResult = Inr tr, validationResult = v, submissionResult = sr\<rparr>"
  shows "status (parseSubmitResponse apiResult) = ''ticket_invalid''
       \<and> \<not> success (parseSubmitResponse apiResult)
       \<and> needNewTicket (parseSubmitResponse apiResult) = JBool True
       \<and> onTaskResult acct res s = s\<lparr>completed := True, resolved := resolved s @ [sr]\<rparr>
       \<and> flowPass acct env =
            ([GetTicket, ValidateTicket (tr_ticket tr), SubmitApplication (tr_ticket tr)], Continue)
       \<and> executeIndependentAccountFlow acct ((True, env) # rest) =
            ([GetTicket, ValidateTicket (tr_ticket tr), SubmitApplication (tr_ticket tr)]
               @ fst (executeIndependentAccountFlow acct rest),
             snd (executeIndependentAccountFlow acct rest))
       \<and> (\<exists>acts. fst (executeIndependentAccountFlow acct ((True, env') # rest')) = GetTicket # acts)"
proof -
  note p = parse_ticket_invalid[OF assms(1-7)]
  have r: "\<not> success res" "truthy (needNewTicket res)"
    using p by (simp_all add: assms(11) executeSubmitTask_fields)
  have 1: "onTaskResult acct res s = s\<lparr>completed := True, resolved := resolved s @ [sr]\<rparr>"
    using r assms(8) by (simp add: onTaskResult_def handleTicketExpired_def assms(12))
  have 2: "flowPass acct env =
            ([GetTicket, ValidateTicket (tr_ticket tr), SubmitApplication (tr_ticket tr)], Continue)"
    using assms(9,10) by (simp add: flowPass_def Let_def assms(12,13))
  have 3: "executeIndependentAccountFlow acct ((True, env) # rest) =
            ([GetTicket, ValidateTicket (tr_ticket tr), SubmitApplication (tr_ticket tr)]
               @ fst (executeIndependentAccountFlow acct rest),
             snd (executeIndependentAccountFlow acct rest))"
    using flow_continue[of acct env rest] 2 by simp
  show ?thesis using p 1 2 3 flow_starts[of acct env' rest'] by blast
qed

theorem ticket_invalid_restarts_from_acquisition_witness:
  "js_get (answered body_ticket_invalid) (str ''success'') = Inr (JBool True)
   \<and> js_get (answered body_ticket_invalid) (str ''data'') = Inr body_ticket_invalid
   \<and> js_get body_ticket_invalid (str ''success'') = Inr (JBool False)
   \<and> js_get body_ticket_invalid (str ''code'') = Inr (JStr (str ''TICKET_INVALID''))
   \<and> \<not> completed (race_start sub0 [task0])
   \<and> tr_success ticket0 \<and> valid valid0
   \<and> status (parseSubmitResponse (answered body_ticket_invalid)) = ''ticket_invalid''
   \<and> onTaskResult acct0 (executeSubmitTask task0 (Inr (answered body_ticket_invalid)))
        (race_start sub0 [task0])
      = (race_start sub0 [task0])\<lparr>completed := True,
           resolved := resolved (race_start sub0 [task0]) @ [needs_ticket0]\<rparr>
   \<and> flowPass acct0 \<lparr>ticketResult = Inr ticket0, validationResult = valid0,
                       submissionResult = needs_ticket0\<rparr>
      = ([GetTicket, ValidateTicket (tr_ticket ticket0), SubmitApplication (tr_ticket ticket0)],
         Continue)"
proof -
  have h1: "js_get (answered body_ticket_invalid) (str ''success'') = Inr (JBool True)"
    and h2: "truthy (JBool True)"
    and h3: "js_get (answered body_ticket_invalid) (str ''data'') = Inr body_ticket_invalid"
    and h4: "truthy body_ticket_invalid" and h5: "typeof_object body_ticket_invalid"
    and h6: "js_get body_ticket_invalid (str ''success'') = Inr (JBool False)"
    and h7: "js_get body_ticket_invalid (str ''code'') = Inr (JStr (str ''TICKET_INVALID''))"
    by (simp_all add: answered_def body_ticket_invalid_def str_def)
  have h8: "\<not> completed (race_start sub0 [task0])"
    by (simp add: race_start_def startSubmissionRound_def dispatch_def sub0_def Let_def)
  have h9: "tr_success ticket0" and h10: "valid valid0"
    by (simp_all add: ticket0_def valid0_def)
  have h12: "needs_ticket0 = \<lparr>sub_success = False, sub_completed = JBool False,
               sub_needNewTicket = JBool True, sub_needRetry = JUndefined,
               sub_error = JUndefined, sub_account = acct0, sub_result = None\<rparr>"
    by (simp add: needs_ticket0_def)
  from ticket_invalid_restarts_from_acquisition[OF h1 h2 h3 h4 h5 h6 h7 h8 h9 h10 refl h12 refl,
      where t = task0 and rest = "[]"]
    h1 h3 h6 h7 h8 h9 h10
  show ?thesis by blast
qed

section \<open>Ticket validation\<close>

lemma validate_thrown:
  "\<not> valid (validateTicketForAccount P acct tk (Inl e))
   \<and> v_needRetry (validateTicketForAccount P acct tk (Inl e)) = JBool True"
  by (simp add: validateTicketForAccount_def)

lemma validate_answer:
  assumes "js_get result (str ''success'') = Inr ok" "js_get result (str ''data'') = Inr b"
  shows "validateTicketForAccount P acct tk (Inr result) =
     (if \<not> truthy ok then
        \<lparr>v_success = False, valid = False, v_account = acct, v_ticket = tk,
         v_error = Some ThrownError, v_needRetry = JBool True\<rparr>
      else if P b then
        \<lparr>v_success = True, valid = True, v_account = acct, v_ticket = tk,
         v_error = None, v_needRetry = JUndefined\<rparr>
      else
        \<lparr>v_success = True, valid = False, v_account = acct, v_ticket = tk,
         v_error = None, v_needRetry = JBool True\<rparr>)"
  using assms by (simp add: validateTicketForAccount_def)

lemma js_get_total:
  "js_get v k = Inr x \<Longrightarrow> \<exists>y. js_get v k' = Inr y"
  by (cases v) simp_all

lemma parse_first_malformed: "\<not> truthy b \<or> \<not> typeof_object b \<Longrightarrow> \<not> parseValidationResponse_first b"
  by (auto simp: parseValidationResponse_first_def)

lemma parse_second_malformed: "\<not> truthy b \<or> \<not> typeof_object b \<Longrightarrow> \<not> parseValidationResponse_second b"
  by (auto simp: parseValidationResponse_second_def)

lemma validate_failed_transport:
  assumes "js_get result (str ''success'') = Inr ok" "\<not> truthy ok"
  shows "\<not> valid (validateTicketForAccount P acct tk (Inr result))
   \<and> v_needRetry (validateTicketForAccount P acct tk (Inr result)) = JBool True"
proof -
  from js_get_total[OF assms(1)] obtain b where "js_get result (str ''data'') = Inr b" by blast
  from validate_answer[OF assms(1) this] assms(2) show ?thesis by simp
qed

lemma validate_malformed:
  assumes "js_get result (str ''data'') = Inr b" "\<not> P b"
  shows "\<not> valid (validateTicketForAccount P acct tk (Inr result))
   \<and> v_needRetry (validateTicketForAccount P acct tk (Inr result)) = JBool True"
proof -
  from js_get_total[OF assms(1)] obtain ok where "js_get result (str ''success'') = Inr ok" by blast
  from validate_answer[OF this assms(1)] assms(2) show ?thesis by simp
qed

text \<open>
  A body with no \<open>success\<close> property does not report failure; the first copy accepts
  it, the second does not.
\<close>

theorem validation_second_copy_counterexample:
  "\<not> valid (validateTicketForAccount parseValidationResponse_second acct0 (str ''tk'')
        (Inr (answered (JObj [(str ''code'', JStr (str ''0''))]))))
   \<and> valid (validateTicketForAccount parseValidationResponse_first acct0 (str ''tk'')
        (Inr (answered (JObj [(str ''code'', JStr (str ''0''))]))))
   \<and> js_get (JObj [(str ''code'', JStr (str ''0''))]) (str ''success'') = Inr JUndefined"
  by (simp add: validateTicketForAccount_def parseValidationResponse_second_def
      parseValidationResponse_first_def answered_def str_def)

text \<open>
  Claim C7, amended. The first copy of \<open>parseValidationResponse\<close> accepts an object body
  exactly when its \<open>success\<close> is not the boolean \<open>false\<close>; the second copy accepts a body
  exactly when it is an object whose \<open>success\<close> is the boolean \<open>true\<close>. With either
  copy, a thrown request, an unsuccessful request and a body that is not an object are
  answered with \<open>valid\<close> false and \<open>needRetry\<close> true. On a result that is not valid the
  account's flow makes no submission and goes on with what a fresh flow does on the
  remaining passes.
\<close>

theorem validation_acceptance:
  "(truthy d \<and> typeof_object d \<longrightarrow>
      (parseValidationResponse_first d \<longleftrightarrow> js_get d (str ''success'') \<noteq> Inr (JBool False)))
   \<and> (parseValidationResponse_second d \<longleftrightarrow>
        truthy d \<and> typeof_object d \<and> js_get d (str ''success'') = Inr (JBool True))
   \<and> (P = parseValidationResponse_first \<or> P = parseValidationResponse_second \<longrightarrow>
        (ans = Inl e
         \<or> (\<exists>result ok. ans = Inr result \<and> js_get result (str ''success'') = Inr ok \<and> \<not> truthy ok)
         \<or> (\<exists>result b. ans = Inr result \<and> js_get result (str ''data'') = Inr b
               \<and> (\<not> truthy b \<or> \<not> typeof_object b))
        \<longrightarrow> \<not> valid (validateTicketForAccount P acct tk ans)
          \<and> v_needRetry (validateTicketForAccount P acct tk ans) = JBool True))
   \<and> (tr_success tr \<and> \<not> valid v \<longrightarrow>
        flowPass acct \<lparr>ticketResult = Inr tr, validationResult = v, submissionResult = sr\<rparr>
          = ([GetTicket, ValidateTicket (tr_ticket tr)], Continue)
        \<and> executeIndependentAccountFlow acct
            ((True, \<lparr>ticketResult = Inr tr, validationResult = v, submissionResult = sr\<rparr>) # rest)
          = ([GetTicket, ValidateTicket (tr_ticket tr)] @ fst (executeIndependentAccountFlow acct rest),
             snd (executeIndependentAccountFlow acct rest)))"
proof -
  have 1: "truthy d \<and> typeof_object d \<longrightarrow>
      (parseValidationResponse_first d \<longleftrightarrow> js_get d (str ''success'') \<noteq> Inr (JBool False))"
    by (cases d) (simp_all add: parseValidationResponse_first_def split: option.splits)
  have 2: "parseValidationResponse_second d \<longleftrightarrow>
        truthy d \<and> typeof_object d \<and> js_get d (str ''success'') = Inr (JBool True)"
    by (cases d) (simp_all add: parseValidationResponse_second_def split: option.splits)
  have 3: "\<not> valid (validateTicketForAccount P acct tk ans)
          \<and> v_needRetry (validateTicketForAccount P acct tk ans) = JBool True"
    if P: "P = parseValidationResponse_first \<or> P = parseValidationResponse_second"
    and c: "ans = Inl e
         \<or> (\<exists>result ok. ans = Inr result \<and> js_get result (str ''success'') = Inr ok \<and> \<not> truthy ok)
         \<or> (\<exists>result b. ans = Inr result \<and> js_get result (str ''data'') = Inr b
               \<and> (\<not> truthy b \<or> \<not> typeof_object b))"
  proof -
    from c consider (a) "ans = Inl e"
      | (b) result ok where "ans = Inr result" "js_get result (str ''success'') = Inr ok" "\<not> truthy ok"
      | (c) result b where "ans = Inr result" "js_get result (str ''data'') = Inr b"
               "\<not> truthy b \<or> \<not> typeof_object b"
      by blast
    then show ?thesis
    proof cases
      case a then show ?thesis using validate_thrown by simp
    next
      case b then show ?thesis using validate_failed_transport by simp
    next
      case c
      with P parse_first_malformed parse_second_malformed have "\<not> P b" by blast
      with c show ?thesis using validate_malformed by simp
    qed
  qed
  have 4: "flowPass acct \<lparr>ticketResult = Inr tr, validationResult = v, submissionResult = sr\<rparr>
          = ([GetTicket, ValidateTicket (tr_ticket tr)], Continue)"
    if "tr_success tr \<and> \<not> valid v"
    using that by (simp add: flowPass_def Let_def)
  have 5: "executeIndependentAccountFlow acct
            ((True, \<lparr>ticketResult = Inr tr, validationResult = v, submissionResult = sr\<rparr>) # rest)
          = ([GetTicket, ValidateTicket (tr_ticket tr)] @ fst (executeIndependentAccountFlow acct rest),
             snd (executeIndependentAccountFlow acct rest))"
    if "tr_success tr \<and> \<not> valid v"
    by (simp add: 4[OF that] case_prod_beta)
  from 1 2 3 4 5 show ?thesis by blast
qed

theorem validation_acceptance_witness:
  "truthy (JObj [(str ''code'', JStr (str ''0''))]) \<and> typeof_object (JObj [(str ''code'', JStr (str ''0''))])
   \<and> parseValidationResponse_first (JObj [(str ''code'', JStr (str ''0''))])
   \<and> \<not> parseValidationResponse_second (JObj [(str ''code'', JStr (str ''0''))])
   \<and> \<not> valid (validateTicketForAccount parseValidationResponse_second acct0 (str ''tk'') (Inl ThrownError))
   \<and> v_needRetry (validateTicketForAccount parseValidationResponse_second acct0 (str ''tk'') (Inl ThrownError))
       = JBool True
   \<and> tr_success ticket0 \<and> \<not> valid invalid0
   \<and> flowPass acct0 \<lparr>ticketResult = Inr ticket0, validationResult = invalid0,
                       submissionResult = needs_ticket0\<rparr>
      = ([GetTicket, ValidateTicket (tr_ticket ticket0)], Continue)"
proof -
  have h1: "truthy (JObj [(str ''code'', JStr (str ''0''))]) \<and> typeof_object (JObj [(str ''code'', JStr (str ''0''))])"
    by simp
  have h2: "js_get (JObj [(str ''code'', JStr (str ''0''))]) (str ''success'') = Inr JUndefined"
    by (simp add: str_def)
  have h3: "tr_success ticket0 \<and> \<not> valid invalid0"
    by (simp add: ticket0_def invalid0_def)
  from validation_acceptance[of "JObj [(str ''code'', JStr (str ''0''))]"
      parseValidationResponse_second "Inl ThrownError" ThrownError acct0 "str ''tk''"
      ticket0 invalid0 needs_ticket0 "[]"] h1 h2 h3
  show ?thesis by simp
qed


section \<open>The rate limiter\<close>

lemma maxRequestsPerSecond_pos: "0 < maxRequestsPerSecond cfg"
  by (simp add: maxRequestsPerSecond_def split: option.splits)

lemma math_min_Min: "math_min x ys = Min (insert x (set ys))"
proof (induction ys arbitrary: x)
  case Nil then show ?case by simp
next
  case (Cons y ys)
  have "Min (insert x (insert y (set ys))) = Min (insert (min x y) (set ys))"
    by (cases "ys = []") (auto simp: min_def Min_insert2 intro!: antisym Min.boundedI Min.coboundedI  dest: Min_le)
  with Cons show ?case by simp
qed

lemma enforceRateLimit_below:
  "length (filter (\<lambda>t. now - 1000 < t) ts) < n \<Longrightarrow> fst (enforceRateLimit n ts now) = 0"
  by (simp add: enforceRateLimit_def Let_def)

lemma enforceRateLimit_full:
  assumes "0 < n" "n \<le> length (filter (\<lambda>t. now - 1000 < t) ts)"
  shows "now + fst (enforceRateLimit n ts now) = Min (set (filter (\<lambda>t. now - 1000 < t) ts)) + 1000"
    and "0 < fst (enforceRateLimit n ts now)"
proof -
  let ?recent = "filter (\<lambda>t. now - 1000 < t) ts"
  from assms obtain t rest where r: "?recent = t # rest" by (cases ?recent) auto
  have fin: "finite (set ?recent)" "set ?recent \<noteq> {}" using r by simp_all
  have "Min (set ?recent) \<in> set ?recent" using Min_in[OF fin] .
  then have old: "now - 1000 < Min (set ?recent)" by simp
  have m: "math_min t rest = Min (set ?recent)" by (simp add: math_min_Min r)
  have old': "now - 1000 < math_min t rest" using old unfolding m .
  have e: "fst (enforceRateLimit n ts now) =
             (if 1000 - (now - math_min t rest) > 0 then 1000 - (now - math_min t rest) else 0)"
    using assms(2) r by (simp add: enforceRateLimit_def Let_def)
  have "fst (enforceRateLimit n ts now) = 1000 - (now - math_min t rest)"
    using old' unfolding e by simp
  then have w: "fst (enforceRateLimit n ts now) = 1000 - (now - Min (set ?recent))"
    unfolding m .
  show "now + fst (enforceRateLimit n ts now) = Min (set ?recent) + 1000" using w by simp
  show "0 < fst (enforceRateLimit n ts now)" using w old by simp
qed

lemma enforceRateLimit_keeps:
  "0 < n \<Longrightarrow> length (snd (enforceRateLimit n ts now)) \<le> n"
  by (simp add: enforceRateLimit_def Let_def)

lemma enforceRateLimit_window:
  assumes "0 < n" "length ts \<le> n"
  shows "length (filter (\<lambda>t. now + fst (enforceRateLimit n ts now) - 1000 < t) ts) < n"
proof (cases "length (filter (\<lambda>t. now - 1000 < t) ts) < n")
  case True
  with enforceRateLimit_below[OF True] show ?thesis by simp
next
  case False
  let ?recent = "filter (\<lambda>t. now - 1000 < t) ts"
  from False have full: "n \<le> length ?recent" by simp
  with assms(1) obtain t rest where r: "?recent = t # rest" by (cases ?recent) auto
  have fin: "finite (set ?recent)" "set ?recent \<noteq> {}" using r by simp_all
  have "Min (set ?recent) \<in> set ?recent" using Min_in[OF fin] .
  then have m: "Min (set ?recent) \<in> set ts" by simp
  have w: "now + fst (enforceRateLimit n ts now) - 1000 = Min (set ?recent)"
    using enforceRateLimit_full(1)[OF assms(1) full] by simp
  have "length (filter (\<lambda>t. Min (set ?recent) < t) ts) < length ts"
    by (rule length_filter_less[OF m]) simp
  with assms(2) show ?thesis unfolding w by simp
qed

text \<open>
  With the default limit of 2, calls entered at 0, 100, 200 and 1050 ms return at 0, 100,
  1000 and 1100 ms: after two calls inside one second, two consecutive returns are
  100 ms apart, less than 1000/2 ms.
\<close>

theorem rate_limit_spacing_counterexample:
  "return_times (maxRequestsPerSecond None) [] [0, 100, 200, 1050] = [0, 100, 1000, 1100]
   \<and> return_times (maxRequestsPerSecond None) [] [0, 100, 200, 1050] ! 3
       - return_times (maxRequestsPerSecond None) [] [0, 100, 200, 1050] ! 2
       < 1000 div int (maxRequestsPerSecond None)"
  by (simp add: maxRequestsPerSecond_def enforceRateLimit_def Let_def)

text \<open>
  Claim C5, amended. \<open>enforceRateLimit\<close> always returns. When fewer than the limit of
  request times are recorded for the account inside the second before the call's entry,
  it does not sleep; when the limit is reached there, it sleeps until 1000 ms after the
  oldest of them. So when it returns, fewer than the limit of the request times recorded
  for the account lie inside the second before the return, and one more request does
  not exceed the limit among the recorded requests of that second. It keeps at most the
  limit of recorded times. No distance of 1000/limit ms between consecutive returns is
  kept: up to the limit of calls may follow each other at once.
\<close>

theorem enforceRateLimit_delay:
  "(length (filter (\<lambda>t. now - 1000 < t) ts) < maxRequestsPerSecond cfg \<longrightarrow>
      fst (enforceRateLimit (maxRequestsPerSecond cfg) ts now) = 0)
   \<and> (maxRequestsPerSecond cfg \<le> length (filter (\<lambda>t. now - 1000 < t) ts) \<longrightarrow>
        0 < fst (enforceRateLimit (maxRequestsPerSecond cfg) ts now)
        \<and> now + fst (enforceRateLimit (maxRequestsPerSecond cfg) ts now)
            = Min (set (filter (\<lambda>t. now - 1000 < t) ts)) + 1000)
   \<and> (length ts \<le> maxRequestsPerSecond cfg \<longrightarrow>
        length (filter (\<lambda>t. now + fst (enforceRateLimit (maxRequestsPerSecond cfg) ts now) - 1000 < t) ts)
          < maxRequestsPerSecond cfg)
   \<and> length (snd (enforceRateLimit (maxRequestsPerSecond cfg) ts now)) \<le> maxRequestsPerSecond cfg"
proof -
  let ?n = "maxRequestsPerSecond cfg"
  have pos: "0 < ?n" by (rule maxRequestsPerSecond_pos)
  have 1: "length (filter (\<lambda>t. now - 1000 < t) ts) < ?n \<longrightarrow> fst (enforceRateLimit ?n ts now) = 0"
    using enforceRateLimit_below by blast
  have 2: "?n \<le> length (filter (\<lambda>t. now - 1000 < t) ts) \<longrightarrow>
        0 < fst (enforceRateLimit ?n ts now)
        \<and> now + fst (enforceRateLimit ?n ts now) = Min (set (filter (\<lambda>t. now - 1000 < t) ts)) + 1000"
    using enforceRateLimit_full[OF pos] by blast
  have 3: "length ts \<le> ?n \<longrightarrow>
        length (filter (\<lambda>t. now + fst (enforceRateLimit ?n ts now) - 1000 < t) ts) < ?n"
    using enforceRateLimit_window[OF pos] by blast
  have 4: "length (snd (enforceRateLimit ?n ts now)) \<le> ?n"
    by (rule enforceRateLimit_keeps[OF pos])
  from 1 2 3 4 show ?thesis by blast
qed

theorem enforceRateLimit_delay_witness:
  "maxRequestsPerSecond None \<le> length (filter (\<lambda>t. 200 - 1000 < t) [0, 100 :: int])
   \<and> length [0, 100 :: int] \<le> maxRequestsPerSecond None
   \<and> 200 + fst (enforceRateLimit (maxRequestsPerSecond None) [0, 100] 200) = 0 + 1000
   \<and> length (filter (\<lambda>t. 200 + fst (enforceRateLimit (maxRequestsPerSecond None) [0, 100] 200)
                                - 1000 < t) [0, 100 :: int]) < maxRequestsPerSecond None
   \<and> length (filter (\<lambda>t. 100 - 1000 < t) [0 :: int]) < maxRequestsPerSecond None
   \<and> fst (enforceRateLimit (maxRequestsPerSecond None) [0] 100) = 0"
proof -
  have h: "maxRequestsPerSecond None \<le> length (filter (\<lambda>t. 200 - 1000 < t) [0, 100 :: int])"
    "length [0, 100 :: int] \<le> maxRequestsPerSecond None"
    "length (filter (\<lambda>t. 100 - 1000 < t) [0 :: int]) < maxRequestsPerSecond None"
    "Min (set (filter (\<lambda>t. 200 - 1000 < t) [0, 100 :: int])) = 0"
    by (simp_all add: maxRequestsPerSecond_def)
  from enforceRateLimit_delay[of 200 "[0, 100]" None] h(1,2,4)
  have a: "200 + fst (enforceRateLimit (maxRequestsPerSecond None) [0, 100] 200) = 0 + 1000"
    "length (filter (\<lambda>t. 200 + fst (enforceRateLimit (maxRequestsPerSecond None) [0, 100] 200)
                                - 1000 < t) [0, 100 :: int]) < maxRequestsPerSecond None"
    by simp_all
  from enforceRateLimit_delay[of 100 "[0]" None] h(3)
  have b: "fst (enforceRateLimit (maxRequestsPerSecond None) [0] 100) = 0"
    by blast
  from h(1,2,3) a b show ?thesis by blast
qed

section \<open>Acquiring a ticket: retries and the timeout\<close>

lemma ticket_loop_timeout:
  "clock_test p - startTime > timeout \<Longrightarrow>
   ticket_loop mx ri timeout startTime n calls slept recorded (p # ps) =
     \<lparr>outcome = Thrown (TicketTimeout timeout), attempts = n + 1, getTicket_calls = calls,
      timeout_log = Some (n + 1, clock_end p - startTime), sleeps = slept,
      requestTimes_after = recorded\<rparr>"
  by (simp add: Let_def)

lemma ticket_loop_retry:
  "\<not> clock_test p - startTime > timeout \<Longrightarrow> fails p \<Longrightarrow>
   \<exists>slept' recorded'.
     ticket_loop mx ri timeout startTime n calls slept recorded (p # ps) =
     ticket_loop mx ri timeout startTime (n + 1) (calls + 1) slept' recorded' ps"
  by (auto simp: Let_def fails_def split: prod.splits api_result.splits)

lemma ticket_loop_return:
  "\<not> clock_test p - startTime > timeout \<Longrightarrow> \<not> fails p \<Longrightarrow>
   \<exists>tk slept' recorded'.
     ticket_loop mx ri timeout startTime n calls slept recorded (p # ps) =
     \<lparr>outcome = Returned \<lparr>tr_success = True, tr_ticket = tk, tr_attempts = n + 1,
                           tr_duration = clock_end p - startTime\<rparr>,
      attempts = n + 1, getTicket_calls = calls + 1, timeout_log = None,
      sleeps = slept', requestTimes_after = recorded'\<rparr>"
  by (auto simp: Let_def fails_def split: prod.splits api_result.splits)

lemma ticket_loop_unbounded:
  "list_all (\<lambda>p. clock_test p - startTime \<le> timeout \<and> fails p) ps \<Longrightarrow>
   outcome (ticket_loop mx ri timeout startTime n calls slept recorded ps) = StillLooping
   \<and> getTicket_calls (ticket_loop mx ri timeout startTime n calls slept recorded ps) = calls + length ps
   \<and> attempts (ticket_loop mx ri timeout startTime n calls slept recorded ps) = n + length ps"
proof (induction ps arbitrary: n calls slept recorded)
  case Nil then show ?case by simp
next
  case (Cons p ps)
  then have a: "\<not> clock_test p - startTime > timeout" "fails p"
    and b: "list_all (\<lambda>p. clock_test p - startTime \<le> timeout \<and> fails p) ps" by simp_all
  from ticket_loop_retry[OF a, of mx ri n calls slept recorded ps]
  obtain slept' recorded' where
    "ticket_loop mx ri timeout startTime n calls slept recorded (p # ps) =
     ticket_loop mx ri timeout startTime (n + 1) (calls + 1) slept' recorded' ps" by blast
  with Cons.IH[OF b, of "n + 1" "calls + 1" slept' recorded'] show ?case by simp
qed

lemma ticket_loop_thrown:
  "outcome (ticket_loop mx ri timeout startTime n calls slept recorded ps) = Thrown e \<Longrightarrow>
   e = TicketTimeout timeout
   \<and> list_ex (\<lambda>p. clock_test p - startTime > timeout) ps
   \<and> (\<exists>d. timeout_log (ticket_loop mx ri timeout startTime n calls slept recorded ps)
            = Some (attempts (ticket_loop mx ri timeout startTime n calls slept recorded ps), d))"
proof (induction ps arbitrary: n calls slept recorded)
  case Nil then show ?case by simp
next
  case (Cons p ps)
  show ?case
  proof (cases "clock_test p - startTime > timeout")
    case True
    from ticket_loop_timeout[OF True, of mx ri n calls slept recorded ps] Cons.prems True
    show ?thesis by simp
  next
    case False
    show ?thesis
    proof (cases "fails p")
      case True
      from ticket_loop_retry[OF False True, of mx ri n calls slept recorded ps]
      obtain slept' recorded' where
        eq: "ticket_loop mx ri timeout startTime n calls slept recorded (p # ps) =
             ticket_loop mx ri timeout startTime (n + 1) (calls + 1) slept' recorded' ps" by blast
      from Cons.IH[of "n + 1" "calls + 1" slept' recorded'] Cons.prems
      show ?thesis unfolding eq by simp
    next
      case f: False
      from ticket_loop_return[OF False f, of mx ri n calls slept recorded ps] Cons.prems
      show ?thesis by auto
    qed
  qed
qed

lemma ticket_loop_returned:
  "outcome (ticket_loop mx ri timeout startTime n calls slept recorded ps) = Returned r \<Longrightarrow>
   tr_success r
   \<and> tr_attempts r + calls = getTicket_calls (ticket_loop mx ri timeout startTime n calls slept recorded ps) + n"
proof (induction ps arbitrary: n calls slept recorded)
  case Nil then show ?case by simp
next
  case (Cons p ps)
  show ?case
  proof (cases "clock_test p - startTime > timeout")
    case True
    from ticket_loop_timeout[OF True, of mx ri n calls slept recorded ps] Cons.prems
    show ?thesis by simp
  next
    case False
    show ?thesis
    proof (cases "fails p")
      case True
      from ticket_loop_retry[OF False True, of mx ri n calls slept recorded ps]
      obtain slept' recorded' where
        eq: "ticket_loop mx ri timeout startTime n calls slept recorded (p # ps) =
             ticket_loop mx ri timeout startTime (n + 1) (calls + 1) slept' recorded' ps" by blast
      from Cons.IH[of "n + 1" "calls + 1" slept' recorded'] Cons.prems
      show ?thesis unfolding eq by simp
    next
      case f: False
      from ticket_loop_return[OF False f, of mx ri n calls slept recorded ps] Cons.prems
      show ?thesis by auto
    qed
  qed
qed

lemma body_ticket_ok: "validateTicketResponse body_ticket = Some (str ''T-1'')"
  by (simp add: validateTicketResponse_def body_ticket_def str_def js_whitespace_def)

text \<open>
  One failed request and then the timeout, and two failed requests and then the timeout:
  the same error is thrown, holding the configured timeout only; the log entry of the
  first run counts 2 attempts after 1 request.
\<close>

theorem timeout_error_counterexample:
  "outcome (getTicketForAccount 2 500 1000 [] 0
        [\<lparr>clock_test = 10, clock_limit = 10, api = ApiFail (str ''HTTP 500''), clock_end = 60\<rparr>,
         \<lparr>clock_test = 1500, clock_limit = 1500, api = ApiFail (str ''HTTP 500''), clock_end = 1501\<rparr>])
     = Thrown (TicketTimeout 1000)
   \<and> getTicket_calls (getTicketForAccount 2 500 1000 [] 0
        [\<lparr>clock_test = 10, clock_limit = 10, api = ApiFail (str ''HTTP 500''), clock_end = 60\<rparr>,
         \<lparr>clock_test = 1500, clock_limit = 1500, api = ApiFail (str ''HTTP 500''), clock_end = 1501\<rparr>])
     = 1
   \<and> timeout_log (getTicketForAccount 2 500 1000 [] 0
        [\<lparr>clock_test = 10, clock_limit = 10, api = ApiFail (str ''HTTP 500''), clock_end = 60\<rparr>,
         \<lparr>clock_test = 1500, clock_limit = 1500, api = ApiFail (str ''HTTP 500''), clock_end = 1501\<rparr>])
     = Some (2, 1501)
   \<and> outcome (getTicketForAccount 2 500 1000 [] 0
        [\<lparr>clock_test = 10, clock_limit = 10, api = ApiFail (str ''HTTP 500''), clock_end = 60\<rparr>,
         \<lparr>clock_test = 600, clock_limit = 600, api = ApiFail (str ''HTTP 500''), clock_end = 650\<rparr>,
         \<lparr>clock_test = 1500, clock_limit = 1500, api = ApiFail (str ''HTTP 500''), clock_end = 1501\<rparr>])
     = Thrown (TicketTimeout 1000)
   \<and> getTicket_calls (getTicketForAccount 2 500 1000 [] 0
        [\<lparr>clock_test = 10, clock_limit = 10, api = ApiFail (str ''HTTP 500''), clock_end = 60\<rparr>,
         \<lparr>clock_test = 600, clock_limit = 600, api = ApiFail (str ''HTTP 500''), clock_end = 650\<rparr>,
         \<lparr>clock_test = 1500, clock_limit = 1500, api = ApiFail (str ''HTTP 500''), clock_end = 1501\<rparr>])
     = 2"
  by (simp add: getTicketForAccount_def enforceRateLimit_def retry_pause_def str_def Let_def)

text \<open>
  Claim C6, amended. \<open>getTicketForAccount\<close> has no retry ceiling: as long as every pass
  is within the timeout at its test and ends in a retry, the loop goes on, one request
  per pass. It throws only at a test that finds more than the configured timeout elapsed
  since the call's start; the error holds the configured timeout only, and the attempt
  counter and the elapsed time go to the log entry. When it returns a ticket, the
  returned attempt count is the number of requests it made.
\<close>

theorem getTicketForAccount_timeout:
  "(list_all (\<lambda>p. clock_test p - startTime \<le> timeout \<and> fails p) ps \<longrightarrow>
      outcome (getTicketForAccount mx ri timeout recorded startTime ps) = StillLooping
      \<and> getTicket_calls (getTicketForAccount mx ri timeout recorded startTime ps) = length ps)
   \<and> (outcome (getTicketForAccount mx ri timeout recorded startTime ps) = Thrown e \<longrightarrow>
        e = TicketTimeout timeout
        \<and> list_ex (\<lambda>p. clock_test p - startTime > timeout) ps
        \<and> (\<exists>d. timeout_log (getTicketForAccount mx ri timeout recorded startTime ps)
                 = Some (attempts (getTicketForAccount mx ri timeout recorded startTime ps), d)))
   \<and> (outcome (getTicketForAccount mx ri timeout recorded startTime ps) = Returned r \<longrightarrow>
        tr_success r
        \<and> tr_attempts r = getTicket_calls (getTicketForAccount mx ri timeout recorded startTime ps))"
  unfolding getTicketForAccount_def
  using ticket_loop_unbounded[of startTime timeout ps mx ri 0 0 "[]" recorded]
    ticket_loop_thrown[of mx ri timeout startTime 0 0 "[]" recorded ps e]
    ticket_loop_returned[of mx ri timeout startTime 0 0 "[]" recorded ps r]
  by simp

theorem getTicketForAccount_timeout_witness:
  "list_all (\<lambda>p. clock_test p - 0 \<le> 1000 \<and> fails p)
      [\<lparr>clock_test = 10, clock_limit = 10, api = ApiFail (str ''HTTP 500''), clock_end = 60\<rparr>,
       \<lparr>clock_test = 600, clock_limit = 600, api = ApiOk JNull, clock_end = 650\<rparr>]
   \<and> getTicket_calls (getTicketForAccount 2 500 1000 [] 0
      [\<lparr>clock_test = 10, clock_limit = 10, api = ApiFail (str ''HTTP 500''), clock_end = 60\<rparr>,
       \<lparr>clock_test = 600, clock_limit = 600, api = ApiOk JNull, clock_end = 650\<rparr>]) = 2
   \<and> outcome (getTicketForAccount 2 500 1000 [] 0
        [\<lparr>clock_test = 10, clock_limit = 10, api = ApiFail (str ''HTTP 500''), clock_end = 60\<rparr>,
         \<lparr>clock_test = 1500, clock_limit = 1500, api = ApiFail (str ''HTTP 500''), clock_end = 1501\<rparr>])
      = Thrown (TicketTimeout 1000)
   \<and> list_ex (\<lambda>p. clock_test p - 0 > 1000)
        [\<lparr>clock_test = 10, clock_limit = 10, api = ApiFail (str ''HTTP 500''), clock_end = 60\<rparr>,
         \<lparr>clock_test = 1500, clock_limit = 1500, api = ApiFail (str ''HTTP 500''), clock_end = 1501\<rparr>]
   \<and> outcome (getTicketForAccount 2 500 1000 [] 0
        [\<lparr>clock_test = 10, clock_limit = 10, api = ApiFail (str ''HTTP 500''), clock_end = 60\<rparr>,
         \<lparr>clock_test = 600, clock_limit = 600, api = ApiOk body_ticket, clock_end = 650\<rparr>])
      = Returned \<lparr>tr_success = True, tr_ticket = str ''T-1'', tr_attempts = 2, tr_duration = 650\<rparr>
   \<and> tr_attempts \<lparr>tr_success = True, tr_ticket = str ''T-1'', tr_attempts = 2, tr_duration = 650\<rparr>
      = getTicket_calls (getTicketForAccount 2 500 1000 [] 0
        [\<lparr>clock_test = 10, clock_limit = 10, api = ApiFail (str ''HTTP 500''), clock_end = 60\<rparr>,
         \<lparr>clock_test = 600, clock_limit = 600, api = ApiOk body_ticket, clock_end = 650\<rparr>])"
proof -
  have h1: "list_all (\<lambda>p. clock_test p - 0 \<le> 1000 \<and> fails p)
      [\<lparr>clock_test = 10, clock_limit = 10, api = ApiFail (str ''HTTP 500''), clock_end = 60\<rparr>,
       \<lparr>clock_test = 600, clock_limit = 600, api = ApiOk JNull, clock_end = 650\<rparr>]"
    by (simp add: fails_def validateTicketResponse_def)
  have h2: "outcome (getTicketForAccount 2 500 1000 [] 0
        [\<lparr>clock_test = 10, clock_limit = 10, api = ApiFail (str ''HTTP 500''), clock_end = 60\<rparr>,
         \<lparr>clock_test = 1500, clock_limit = 1500, api = ApiFail (str ''HTTP 500''), clock_end = 1501\<rparr>])
      = Thrown (TicketTimeout 1000)"
    by (simp add: getTicketForAccount_def enforceRateLimit_def Let_def)
  have h3: "outcome (getTicketForAccount 2 500 1000 [] 0
        [\<lparr>clock_test = 10, clock_limit = 10, api = ApiFail (str ''HTTP 500''), clock_end = 60\<rparr>,
         \<lparr>clock_test = 600, clock_limit = 600, api = ApiOk body_ticket, clock_end = 650\<rparr>])
      = Returned \<lparr>tr_success = True, tr_ticket = str ''T-1'', tr_attempts = 2, tr_duration = 650\<rparr>"
    by (simp add: getTicketForAccount_def enforceRateLimit_def Let_def body_ticket_ok)
  from getTicketForAccount_timeout[of 0 1000
      "[\<lparr>clock_test = 10, clock_limit = 10, api = ApiFail (str ''HTTP 500''), clock_end = 60\<rparr>,
        \<lparr>clock_test = 600, clock_limit = 600, api = ApiOk JNull, clock_end = 650\<rparr>]" 2 500 "[]"] h1
  have c1: "getTicket_calls (getTicketForAccount 2 500 1000 [] 0
      [\<lparr>clock_test = 10, clock_limit = 10, api = ApiFail (str ''HTTP 500''), clock_end = 60\<rparr>,
       \<lparr>clock_test = 600, clock_limit = 600, api = ApiOk JNull, clock_end = 650\<rparr>]) = 2"
    by simp
  from getTicketForAccount_timeout[of 0 1000
      "[\<lparr>clock_test = 10, clock_limit = 10, api = ApiFail (str ''HTTP 500''), clock_end = 60\<rparr>,
        \<lparr>clock_test = 1500, clock_limit = 1500, api = ApiFail (str ''HTTP 500''), clock_end = 1501\<rparr>]"
      2 500 "[]" "TicketTimeout 1000"] h2
  have c2: "list_ex (\<lambda>p. clock_test p - 0 > 1000)
        [\<lparr>clock_test = 10, clock_limit = 10, api = ApiFail (str ''HTTP 500''), clock_end = 60\<rparr>,
         \<lparr>clock_test = 1500, clock_limit = 1500, api = ApiFail (str ''HTTP 500''), clock_end = 1501\<rparr>]"
    by blast
  from getTicketForAccount_timeout[of 0 1000
      "[\<lparr>clock_test = 10, clock_limit = 10, api = ApiFail (str ''HTTP 500''), clock_end = 60\<rparr>,
        \<lparr>clock_test = 600, clock_limit = 600, api = ApiOk body_ticket, clock_end = 650\<rparr>]"
      2 500 "[]" _ "\<lparr>tr_success = True, tr_ticket = str ''T-1'', tr_attempts = 2, tr_duration = 650\<rparr>"] h3
  have c3: "tr_attempts \<lparr>tr_success = True, tr_ticket = str ''T-1'', tr_attempts = 2, tr_duration = 650\<rparr>
      = getTicket_calls (getTicketForAccount 2 500 1000 [] 0
        [\<lparr>clock_test = 10, clock_limit = 10, api = ApiFail (str ''HTTP 500''), clock_end = 60\<rparr>,
         \<lparr>clock_test = 600, clock_limit = 600, api = ApiOk body_ticket, clock_end = 650\<rparr>])"
    by blast
  from h1 h2 h3 c1 c2 c3 show ?thesis by blast
qed

section \<open>Choosing a route after the expiry time\<close>

lemma scan_ok:
  "currentIndex pl < length (proxies pl) \<Longrightarrow>
   \<exists>x pl'. scan k now pl = Inr (x, pl') \<and> length (proxies pl') = length (proxies pl)
      \<and> isRefreshing pl' = isRefreshing pl"
proof (induction k arbitrary: pl)
  case 0 then show ?case by simp
next
  case (Suc k)
  let ?pl' = "pl\<lparr>currentIndex := (currentIndex pl + 1) mod length (proxies pl)\<rparr>"
  from Suc.prems have pos: "0 < length (proxies pl)" by (cases "proxies pl") simp_all
  then have "currentIndex ?pl' < length (proxies ?pl')" by simp
  from Suc.IH[OF this] Suc.prems show ?case by (auto simp: Let_def)
qed

lemma scan_not_empty_error: "scan k now pl \<noteq> Inl PoolEmpty"
  by (induction k arbitrary: pl) (auto simp: Let_def)

lemma refreshProxies_begin_keeps:
  "proxies (refreshProxies_begin pl) = proxies pl"
  "currentIndex (refreshProxies_begin pl) = currentIndex pl"
  "isRefreshing (refreshProxies_begin pl)"
  by (simp_all add: refreshProxies_begin_def)
lemma after_check_keeps:
  "proxies (after_check pl now) = proxies pl"
  "currentIndex (after_check pl now) = currentIndex pl"
  by (simp_all add: after_check_def refreshProxies_begin_keeps split: option.splits)

lemma after_check_expired:
  "expireTime pl = Some e \<Longrightarrow> e < now \<Longrightarrow> isRefreshing (after_check pl now)"
  by (simp add: after_check_def refreshProxies_begin_keeps)

lemma getNextProxy_alt:
  "getNextProxy pl now =
     (if length (proxies pl) = 0 then Inl PoolEmpty
      else case scan (length (proxies pl)) now (after_check pl now) of
              Inl err \<Rightarrow> Inl err
            | Inr (Some r, pl2) \<Rightarrow> Inr (r, pl2)
            | Inr (None, pl2) \<Rightarrow> Inr (route_of (proxies (resetFailCounts pl2) ! 0), resetFailCounts pl2))"
  by (simp add: getNextProxy_def after_check_def[symmetric] after_check_keeps Let_def
      split: sum.splits prod.splits option.splits)

lemma getNextProxy_returns:
  assumes "proxies pl \<noteq> []" "currentIndex pl < length (proxies pl)"
  shows "\<exists>r pl'. getNextProxy pl now = Inr (r, pl') \<and> isRefreshing pl' = isRefreshing (after_check pl now)"
proof -
  have "currentIndex (after_check pl now) < length (proxies (after_check pl now))"
    using assms(2) by (simp add: after_check_keeps)
  from scan_ok[OF this, of "length (proxies pl)" now]
  obtain x pl' where s: "scan (length (proxies pl)) now (after_check pl now) = Inr (x, pl')"
    and r: "isRefreshing pl' = isRefreshing (after_check pl now)" by blast
  show ?thesis using assms(1) s r
    by (cases x) (simp_all add: getNextProxy_alt resetFailCounts_def)
qed

lemma getNextProxy_empty: "getNextProxy pl now = Inl PoolEmpty \<longleftrightarrow> proxies pl = []"
proof (cases "proxies pl = []")
  case True then show ?thesis by (simp add: getNextProxy_alt)
next
  case False
  show ?thesis
  proof (cases "scan (length (proxies pl)) now (after_check pl now)")
    case (Inl err)
    with scan_not_empty_error[of "length (proxies pl)" now "after_check pl now"] False
    show ?thesis by (simp add: getNextProxy_alt)
  next
    case (Inr b)
    with False show ?thesis by (cases b; cases "fst b") (simp_all add: getNextProxy_alt)
  qed
qed

lemma available_nonempty:
  "j < length ps \<Longrightarrow> usable (ps ! j) \<Longrightarrow> filter (\<lambda>i. usable (ps ! i)) [0 ..< length ps] \<noteq> []"
  by (auto simp: filter_empty_conv)

lemma getRandomProxy_available:
  assumes "filter (\<lambda>i. usable (proxies pl ! i)) [0 ..< length (proxies pl)] \<noteq> []"
  shows "\<exists>r pl'. getRandomProxy pl now rnd = Some (Inr (r, pl'))"
proof -
  from assms have "proxies pl \<noteq> []" by auto
  with assms show ?thesis
    by (subst getRandomProxy.simps) (simp add: Let_def)
qed

lemma getRandomProxy_returns:
  assumes "list_ex (\<lambda>p. 0 < maxFails p) (proxies pl)"
  shows "\<exists>r pl'. getRandomProxy pl now rnd = Some (Inr (r, pl'))"
proof (cases "filter (\<lambda>i. usable (proxies pl ! i)) [0 ..< length (proxies pl)] = []")
  case False
  then show ?thesis by (rule getRandomProxy_available)
next
  case True
  from assms obtain j where j: "j < length (proxies pl)" "0 < maxFails (proxies pl ! j)"
    by (auto simp: list_ex_iff in_set_conv_nth)
  then have ne: "proxies pl \<noteq> []" by auto
  have "j < length (proxies (resetFailCounts pl))" "usable (proxies (resetFailCounts pl) ! j)"
    using j by (simp_all add: resetFailCounts_def usable_def)
  from available_nonempty[OF this]
  have "\<exists>r pl'. getRandomProxy (resetFailCounts pl) now rnd = Some (Inr (r, pl'))"
    by (rule getRandomProxy_available)
  moreover have "getRandomProxy pl now rnd = getRandomProxy (resetFailCounts pl) now rnd"
    using True ne by (subst getRandomProxy.simps) (simp add: Let_def)
  ultimately show ?thesis by simp
qed

text \<open>
  A pool of one healthy proxy that expired at 1000, asked at 2000: both methods return
  the proxy's route; \<open>getNextProxy\<close> also starts a refresh.
\<close>

theorem route_after_expiry_counterexample:
  "getNextProxy pool0 2000 =
     Inr (route_of proxy0,
          \<lparr>proxies = [proxy0\<lparr>lastUsed := Some 2000\<rparr>], currentIndex = 0, expireTime = Some 1000,
           isRefreshing = True\<rparr>)
   \<and> getRandomProxy pool0 2000 0 =
     Some (Inr (route_of proxy0,
          \<lparr>proxies = [proxy0\<lparr>lastUsed := Some 2000\<rparr>], currentIndex = 0, expireTime = Some 1000,
           isRefreshing = False\<rparr>))
   \<and> expireTime pool0 = Some 1000 \<and> (1000::int) < 2000"
  by (simp add: getNextProxy_def getRandomProxy.simps pool0_def proxy0_def refreshProxies_begin_def
      route_of_def usable_def Let_def)

text \<open>
  Claim C3, amended. At every time, also after the expiry time, \<open>getNextProxy\<close> returns
  a route whenever the pool is not empty, and after the expiry time it starts a refresh
  besides; it fails with the empty-pool error exactly when the pool is empty.
  \<open>getRandomProxy\<close> does not read the expiry time: it returns a route whenever some proxy
  has a positive \<open>maxFails\<close>, and fails with the empty-pool error on an empty pool.
\<close>

theorem route_selection_ignores_expiry:
  "(proxies pl \<noteq> [] \<and> currentIndex pl < length (proxies pl) \<longrightarrow>
      (\<exists>r pl'. getNextProxy pl now = Inr (r, pl')
         \<and> (\<forall>e. expireTime pl = Some e \<and> e < now \<longrightarrow> isRefreshing pl')))
   \<and> (getNextProxy pl now = Inl PoolEmpty \<longleftrightarrow> proxies pl = [])
   \<and> (list_ex (\<lambda>p. 0 < maxFails p) (proxies pl) \<longrightarrow>
        (\<exists>r pl'. getRandomProxy pl now rnd = Some (Inr (r, pl'))))
   \<and> (proxies pl = [] \<longrightarrow> getRandomProxy pl now rnd = Some (Inl PoolEmpty))"
proof (intro conjI impI)
  assume "proxies pl \<noteq> [] \<and> currentIndex pl < length (proxies pl)"
  then obtain r pl' where g: "getNextProxy pl now = Inr (r, pl')"
    and i: "isRefreshing pl' = isRefreshing (after_check pl now)"
    using getNextProxy_returns by blast
  then show "\<exists>r pl'. getNextProxy pl now = Inr (r, pl')
         \<and> (\<forall>e. expireTime pl = Some e \<and> e < now \<longrightarrow> isRefreshing pl')"
    using after_check_expired by auto
next
  show "getNextProxy pl now = Inl PoolEmpty \<longleftrightarrow> proxies pl = []" by (rule getNextProxy_empty)
next
  assume "list_ex (\<lambda>p. 0 < maxFails p) (proxies pl)"
  then show "\<exists>r pl'. getRandomProxy pl now rnd = Some (Inr (r, pl'))" by (rule getRandomProxy_returns)
next
  assume "proxies pl = []"
  then show "getRandomProxy pl now rnd = Some (Inl PoolEmpty)"
    by (subst getRandomProxy.simps) simp
qed

theorem route_selection_ignores_expiry_witness:
  "proxies pool0 \<noteq> [] \<and> currentIndex pool0 < length (proxies pool0)
   \<and> expireTime pool0 = Some 1000 \<and> (1000::int) < 2000
   \<and> list_ex (\<lambda>p. 0 < maxFails p) (proxies pool0)
   \<and> (\<exists>r pl'. getNextProxy pool0 2000 = Inr (r, pl') \<and> isRefreshing pl')
   \<and> (\<exists>r pl'. getRandomProxy pool0 2000 0 = Some (Inr (r, pl')))
   \<and> proxies (pool0\<lparr>proxies := []\<rparr>) = []
   \<and> getRandomProxy (pool0\<lparr>proxies := []\<rparr>) 2000 0 = Some (Inl PoolEmpty)
   \<and> getNextProxy (pool0\<lparr>proxies := []\<rparr>) 2000 = Inl PoolEmpty"
proof -
  have h: "proxies pool0 \<noteq> [] \<and> currentIndex pool0 < length (proxies pool0)"
    "expireTime pool0 = Some 1000 \<and> (1000::int) < 2000"
    "list_ex (\<lambda>p. 0 < maxFails p) (proxies pool0)"
    "proxies (pool0\<lparr>proxies := []\<rparr>) = []"
    by (simp_all add: pool0_def proxy0_def)
  from route_selection_ignores_expiry[of pool0 2000 0]
       route_selection_ignores_expiry[of "pool0\<lparr>proxies := []\<rparr>" 2000 0] h
  show ?thesis by auto
qed

end
